theory Spec2Isabelle
  imports Main "HOL-Library.AList" "HOL-Library.Char_ord" "HOL-Library.List_Lexorder"
begin

section \<open>itermultipart: parts and the streaming multipart source\<close>

text \<open>
  A shallow embedding of the Go package \<^verbatim>\<open>itermultipart\<close>: the \<^verbatim>\<open>Part\<close> entity
  (headers, content stream, Content-Disposition cache) and the \<^verbatim>\<open>Source\<close>, which
  encodes a sequence of parts as a \<^verbatim>\<open>multipart/form-data\<close> message, either by
  incremental \<^verbatim>\<open>Read\<close> calls or by one bulk \<^verbatim>\<open>WriteTo\<close>.

  Go strings and byte slices are sequences of bytes: \<^typ>\<open>string\<close>, whose characters
  are 8-bit. Pointers are modelled by value, mutation by returning the updated value,
  a \<^verbatim>\<open>nil\<close> pointer, map or interface by \<^const>\<open>None\<close>, and a Go panic by the left
  injection of a sum.
\<close>

type_synonym bytes = string

definition CRLF :: bytes where
  "CRLF = [CHR 0x0D, CHR 0x0A]"

subsection \<open>Errors and panics\<close>

text \<open>
  The error values the package creates or passes on. \<open>Wrapped msg e\<close> is
  \<^verbatim>\<open>fmt.Errorf(msg + ": %w", e)\<close>; \<open>Opaque msg\<close> is any other error (of a part
  sequence, a content stream or a sink).
\<close>

datatype error =
    EOF
  | ErrUnexpectedEOF
  | ErrShortWrite
  | SourceClosed
  | SetBoundaryAfterRead
  | InvalidBoundaryLength
  | InvalidBoundaryCharacter
  | Wrapped string error
  | Opaque string

text \<open>\<^verbatim>\<open>errors.Is(err, target)\<close>: \<open>err\<close> or an error it wraps is \<open>target\<close>.\<close>

fun errors_Is :: "error \<Rightarrow> error \<Rightarrow> bool" where
  "errors_Is (Wrapped msg e) target = (Wrapped msg e = target \<or> errors_Is e target)"
| "errors_Is e target = (e = target)"

datatype panic =
    NilMapAssignment
  | NilDereference
  | EmptyBufferInCopyBuffer

subsection \<open>MIME headers\<close>

text \<open>
  \<^verbatim>\<open>textproto.MIMEHeader\<close> is \<^verbatim>\<open>map[string][]string\<close>: an association list, read with
  \<^const>\<open>map_of\<close> and written with \<^const>\<open>AList.update\<close>. A missing key reads as the
  \<^verbatim>\<open>nil\<close> slice. The two keys the package writes itself, \<^verbatim>\<open>Content-Disposition\<close> and
  \<^verbatim>\<open>Content-Type\<close>, are in canonical form already, so \<^verbatim>\<open>Set\<close> and \<^verbatim>\<open>Get\<close> do not
  change them.
\<close>

type_synonym MIMEHeader = "(string \<times> string list) list"

definition contentDispositionHeader :: string where
  "contentDispositionHeader = ''Content-Disposition''"

definition contentTypeHeader :: string where
  "contentTypeHeader = ''Content-Type''"

definition formDataDisposition :: string where
  "formDataDisposition = ''form-data''"

definition MIMEHeader_index :: "MIMEHeader \<Rightarrow> string \<Rightarrow> string list" where
  "MIMEHeader_index h k = (case map_of h k of None \<Rightarrow> [] | Some vs \<Rightarrow> vs)"

definition MIMEHeader_Set :: "string \<Rightarrow> string \<Rightarrow> MIMEHeader \<Rightarrow> MIMEHeader" where
  "MIMEHeader_Set k v h = AList.update k [v] h"

definition MIMEHeader_Get :: "string \<Rightarrow> MIMEHeader \<Rightarrow> string" where
  "MIMEHeader_Get k h = (case MIMEHeader_index h k of [] \<Rightarrow> [] | v # vs \<Rightarrow> v)"

text \<open>\<^verbatim>\<open>slices.Sorted(maps.Keys(h))\<close>: the keys of the map, each once, ascending bytewise.\<close>

definition sortedKeys :: "(string \<times> 'v) list \<Rightarrow> string list" where
  "sortedKeys h = sort (remdups (map fst h))"

subsection \<open>The standard library's media type formatter\<close>

text \<open>
  \<^verbatim>\<open>mime.FormatMediaType\<close> of the Go standard library, which the setters call to
  serialise a Content-Disposition: the lower-cased type, then for each parameter in
  ascending key order \<^verbatim>\<open>; key=value\<close>, the value written as a token, as a quoted
  string, or percent-encoded (RFC 2231) when it has a byte outside printable ASCII.
  The result is empty when the type or a key is not a token.
\<close>

definition tspecials :: string where
  "tspecials = ''()<>@,;:'' @ [CHR 0x5C, CHR 0x22] @ ''/[]?=''"

definition isTSpecial :: "char \<Rightarrow> bool" where
  "isTSpecial c = (c \<in> set tspecials)"

definition isTokenChar :: "char \<Rightarrow> bool" where
  "isTokenChar c = (CHR 0x20 < c \<and> c < CHR 0x7F \<and> \<not> isTSpecial c)"

definition isToken :: "string \<Rightarrow> bool" where
  "isToken s = (s \<noteq> [] \<and> list_all isTokenChar s)"

definition needsEncoding :: "string \<Rightarrow> bool" where
  "needsEncoding s = list_ex (\<lambda>b. (b < CHR 0x20 \<or> CHR 0x7E < b) \<and> b \<noteq> CHR 0x09) s"

definition toLowerASCII :: "char \<Rightarrow> char" where
  "toLowerASCII c =
     (if CHR ''A'' \<le> c \<and> c \<le> CHR ''Z'' then char_of (of_char c + (32::nat)) else c)"

definition upperhex :: string where
  "upperhex = ''0123456789ABCDEF''"

definition percentEncode :: "char \<Rightarrow> string" where
  "percentEncode ch =
     (if ch \<le> CHR 0x20 \<or> CHR 0x7F \<le> ch \<or> ch = CHR ''*'' \<or> ch = CHR 0x27 \<or> ch = CHR ''%''
         \<or> isTSpecial ch
      then [CHR ''%'', upperhex ! ((of_char ch :: nat) div 16), upperhex ! ((of_char ch :: nat) mod 16)]
      else [ch])"

definition quoteEscape :: "char \<Rightarrow> string" where
  "quoteEscape ch = (if ch = CHR 0x22 \<or> ch = CHR 0x5C then [CHR 0x5C, ch] else [ch])"

definition formatValue :: "string \<Rightarrow> string" where
  "formatValue v =
     (if needsEncoding v then ''*=utf-8'' @ [CHR 0x27, CHR 0x27] @ concat (map percentEncode v)
      else if isToken v then ''='' @ v
      else ''='' @ [CHR 0x22] @ concat (map quoteEscape v) @ [CHR 0x22])"

definition paramsIndex :: "(string \<times> string) list \<Rightarrow> string \<Rightarrow> string" where
  "paramsIndex m k = (case map_of m k of None \<Rightarrow> [] | Some v \<Rightarrow> v)"

fun formatParams :: "(string \<times> string) list \<Rightarrow> string list \<Rightarrow> string option" where
  "formatParams param [] = Some []"
| "formatParams param (a # attrs) =
     (if \<not> isToken a then None
      else (case formatParams param attrs of
              None \<Rightarrow> None
            | Some more \<Rightarrow>
                Some (''; '' @ map toLowerASCII a @ formatValue (paramsIndex param a) @ more)))"

definition formatType :: "string \<Rightarrow> string option" where
  "formatType t =
     (if CHR ''/'' \<notin> set t then
        (if \<not> isToken t then None else Some (map toLowerASCII t))
      else
        (let major = takeWhile (\<lambda>c. c \<noteq> CHR ''/'') t;
             sub = drop 1 (dropWhile (\<lambda>c. c \<noteq> CHR ''/'') t)
         in if \<not> isToken major \<or> \<not> isToken sub then None
            else Some (map toLowerASCII major @ ''/'' @ map toLowerASCII sub)))"

definition FormatMediaType :: "string \<Rightarrow> (string \<times> string) list \<Rightarrow> string" where
  "FormatMediaType t param =
     (case formatType t of
        None \<Rightarrow> []
      | Some ty \<Rightarrow>
          (case formatParams param (sortedKeys param) of
             None \<Rightarrow> []
           | Some ps \<Rightarrow> ty @ ps))"

subsection \<open>Content streams\<close>

text \<open>
  A part's content is an \<^verbatim>\<open>io.Reader\<close>. A stream is modelled by what it delivers:
  \<open>rest\<close>, the bytes it has still to deliver; \<open>fin\<close>, the error its \<^verbatim>\<open>Read\<close> returns
  once they are delivered (\<open>EOF\<close> for a stream that ends normally); \<open>past\<close>, the bytes
  before the read position, which only \<^verbatim>\<open>Seek\<close> reaches; and the optional interfaces
  the package asks for by type assertion: \<^verbatim>\<open>io.Seeker\<close>, \<^verbatim>\<open>io.WriterTo\<close>, and the
  dynamic type \<^verbatim>\<open>*io.LimitedReader\<close> with its remaining count \<open>N\<close>. \<^verbatim>\<open>Read(p)\<close>
  fills \<open>p\<close> as far as the stream has bytes, as \<^verbatim>\<open>strings.Reader\<close> and
  \<^verbatim>\<open>bytes.Reader\<close> do. Streams differ in what a \<^verbatim>\<open>Read\<close> into an empty \<open>p\<close> returns
  at the end of the stream: \<^verbatim>\<open>strings.Reader\<close> and \<^verbatim>\<open>bytes.Reader\<close> return
  \<^verbatim>\<open>(0, io.EOF)\<close>, a \<^verbatim>\<open>bufio.Reader\<close> returns \<^verbatim>\<open>(0, nil)\<close>; \<open>quietAtEnd\<close>
  is true of the second kind.
\<close>

datatype seeker = NotSeeker | SeekOk | SeekFails error

record reader =
  past :: bytes
  rest :: bytes
  fin :: error
  seek :: seeker
  isWriterTo :: bool
  limitN :: "int option"
  quietAtEnd :: bool

text \<open>The stream after it has delivered its next \<open>n\<close> bytes.\<close>

definition advance :: "nat \<Rightarrow> reader \<Rightarrow> reader" where
  "advance n r =
     r\<lparr>past := past r @ take n (rest r), rest := drop n (rest r),
       limitN := map_option (\<lambda>N. N - int (length (take n (rest r)))) (limitN r)\<rparr>"

definition reader_Read :: "nat \<Rightarrow> reader \<Rightarrow> bytes \<times> error option \<times> reader" where
  "reader_Read k r =
     (if rest r = [] then
        (if k = 0 \<and> quietAtEnd r then ([], None, r) else ([], Some (fin r), r))
      else (take k (rest r), None, advance k r))"

text \<open>\<^verbatim>\<open>strings.NewReader\<close> and \<^verbatim>\<open>bytes.NewReader\<close>: seekable, with \<^verbatim>\<open>WriteTo\<close>.\<close>

definition bytes_NewReader :: "bytes \<Rightarrow> reader" where
  "bytes_NewReader s =
     \<lparr>past = [], rest = s, fin = EOF, seek = SeekOk, isWriterTo = True, limitN = None,
      quietAtEnd = False\<rparr>"

definition strings_NewReader :: "string \<Rightarrow> reader" where
  "strings_NewReader s = bytes_NewReader s"

text \<open>The package's own \<^verbatim>\<open>errorReader\<close>: every \<^verbatim>\<open>Read\<close> returns \<^verbatim>\<open>(0, err)\<close>.\<close>

definition errorReader :: "error \<Rightarrow> reader" where
  "errorReader e =
     \<lparr>past = [], rest = [], fin = e, seek = NotSeeker, isWriterTo = False, limitN = None,
      quietAtEnd = False\<rparr>"

text \<open>
  \<^verbatim>\<open>io.MultiReader(a, b)\<close>: the bytes of \<open>a\<close>, then, if \<open>a\<close> ended with \<^verbatim>\<open>io.EOF\<close>,
  those of \<open>b\<close>. It has \<^verbatim>\<open>WriteTo\<close> and no \<^verbatim>\<open>Seek\<close>.
\<close>

definition io_MultiReader :: "reader \<Rightarrow> reader \<Rightarrow> reader" where
  "io_MultiReader a b =
     (if fin a = EOF
      then \<lparr>past = [], rest = rest a @ rest b, fin = fin b, seek = NotSeeker,
            isWriterTo = True, limitN = None, quietAtEnd = quietAtEnd b\<rparr>
      else \<lparr>past = [], rest = rest a, fin = fin a, seek = NotSeeker,
            isWriterTo = True, limitN = None, quietAtEnd = quietAtEnd a\<rparr>)"

text \<open>
  \<^verbatim>\<open>io.LimitReader(r, n)\<close>: an \<^verbatim>\<open>*io.LimitedReader\<close>, which delivers the first \<open>n\<close>
  bytes of \<open>r\<close> and has neither \<^verbatim>\<open>WriteTo\<close> nor \<^verbatim>\<open>Seek\<close>.
\<close>

definition io_LimitReader :: "reader \<Rightarrow> int \<Rightarrow> reader" where
  "io_LimitReader r n =
     \<lparr>past = [], rest = take (nat n) (rest r),
      fin = (if int (length (rest r)) < n then fin r else EOF),
      seek = NotSeeker, isWriterTo = False, limitN = Some n,
      quietAtEnd = (if int (length (rest r)) < n then quietAtEnd r else False)\<rparr>"



text \<open>
  \<^verbatim>\<open>io.ReadFull(r, buf)\<close> with \<open>len(buf) = n\<close>: \<open>n\<close> bytes and no error, or the bytes
  there are with \<^verbatim>\<open>io.ErrUnexpectedEOF\<close> when the stream ends early, \<^verbatim>\<open>io.EOF\<close> when
  it was empty, or the stream's own error.
\<close>

definition io_ReadFull :: "reader \<Rightarrow> nat \<Rightarrow> bytes \<times> error option \<times> reader" where
  "io_ReadFull r n =
     (let got = take n (rest r);
          r' = advance n r
      in if n \<le> length (rest r) then (got, None, r')
         else if fin r = EOF then (got, Some (if got = [] then EOF else ErrUnexpectedEOF), r')
         else (got, Some (fin r), r'))"

text \<open>\<^verbatim>\<open>Seek(0, io.SeekStart)\<close> on a stream that implements \<^verbatim>\<open>io.Seeker\<close>.\<close>

definition reader_SeekStart :: "reader \<Rightarrow> error option \<times> reader" where
  "reader_SeekStart r =
     (case seek r of
        SeekFails e \<Rightarrow> (Some e, r)
      | _ \<Rightarrow> (None, r\<lparr>past := [], rest := past r @ rest r\<rparr>))"

text \<open>
  Reading a stream to exhaustion with a buffer of \<open>k + 1\<close> bytes per call: the bytes
  delivered and the error that ended the reading.
\<close>

function io_ReadAll :: "nat \<Rightarrow> reader \<Rightarrow> bytes \<times> error" where
  "io_ReadAll k r =
     (case reader_Read (Suc k) r of
        (bs, Some e, r') \<Rightarrow> (bs, e)
      | (bs, None, r') \<Rightarrow> (case io_ReadAll k r' of (cs, e) \<Rightarrow> (bs @ cs, e)))"
  by pat_completeness auto
termination
  by (relation "measure (\<lambda>(k, r). length (rest r))")
     (auto simp: reader_Read_def advance_def split: if_splits)

declare io_ReadAll.simps [simp del]

subsection \<open>Part\<close>

text \<open>
  The package-level map \<^verbatim>\<open>emptyParams\<close>, which \<^verbatim>\<open>parseContentDisposition\<close> installs
  as the cache of a part without a usable Content-Disposition, is the empty map. Go
  shares it by reference among the parts that have it as their cache; here each part
  holds its value.
\<close>

definition emptyParams :: "(string \<times> string) list" where
  "emptyParams = []"

record Part =
  Header :: "MIMEHeader option"
  Content :: "reader option"
  disposition :: string
  dispositionParams :: "(string \<times> string) list option"

definition NewPart :: Part where
  "NewPart = \<lparr>Header = Some [], Content = None, disposition = [], dispositionParams = None\<rparr>"

text \<open>Reading a \<^verbatim>\<open>nil\<close> header map gives no entries.\<close>

definition headerOf :: "Part \<Rightarrow> MIMEHeader" where
  "headerOf p = (case Header p of None \<Rightarrow> [] | Some h \<Rightarrow> h)"

text \<open>\<^verbatim>\<open>p.Header.Set(key, value)\<close>: assignment to an entry of a \<^verbatim>\<open>nil\<close> map panics.\<close>

definition Header_Set :: "string \<Rightarrow> string \<Rightarrow> Part \<Rightarrow> panic + Part" where
  "Header_Set k v p =
     (case Header p of
        None \<Rightarrow> Inl NilMapAssignment
      | Some h \<Rightarrow> Inr (p\<lparr>Header := Some (MIMEHeader_Set k v h)\<rparr>))"

definition SetFormName :: "string \<Rightarrow> Part \<Rightarrow> panic + Part" where
  "SetFormName formName p =
     (let params = (case dispositionParams p of None \<Rightarrow> [] | Some m \<Rightarrow> m);
          params = AList.update ''name'' formName params;
          d = FormatMediaType formDataDisposition params
      in Header_Set contentDispositionHeader d
           (p\<lparr>dispositionParams := Some params, disposition := d\<rparr>))"

text \<open>
  \<^verbatim>\<open>mime.ParseMediaType\<close> is a parameter of the getters: the media type, the
  parameter map (possibly \<^verbatim>\<open>nil\<close>) and the error it returns for a header value.
\<close>

type_synonym parser = "string \<Rightarrow> string \<times> (string \<times> string) list option \<times> error option"

definition parseContentDisposition :: "parser \<Rightarrow> Part \<Rightarrow> Part" where
  "parseContentDisposition ParseMediaType p =
     (case MIMEHeader_index (headerOf p) contentDispositionHeader of
        [] \<Rightarrow> p\<lparr>disposition := [], dispositionParams := Some emptyParams\<rparr>
      | v0 # vs \<Rightarrow>
          if dispositionParams p \<noteq> None \<and> disposition p = v0 then p
          else (case ParseMediaType v0 of
                  (d, params, err) \<Rightarrow>
                    if err \<noteq> None
                    then p\<lparr>disposition := d, dispositionParams := Some emptyParams\<rparr>
                    else p\<lparr>disposition := d, dispositionParams := params\<rparr>))"

text \<open>Reading a key of a \<^verbatim>\<open>nil\<close> or non-\<^verbatim>\<open>nil\<close> parameter map; a missing key reads as \<^verbatim>\<open>""\<close>.\<close>

definition dispositionParam :: "Part \<Rightarrow> string \<Rightarrow> string" where
  "dispositionParam p k =
     (case dispositionParams p of None \<Rightarrow> [] | Some m \<Rightarrow> paramsIndex m k)"

text \<open>\<^verbatim>\<open>FormName\<close> returns the name and leaves the refreshed cache in the part.\<close>

definition FormName :: "parser \<Rightarrow> Part \<Rightarrow> string \<times> Part" where
  "FormName ParseMediaType p =
     (let p = parseContentDisposition ParseMediaType p
      in if disposition p \<noteq> formDataDisposition then ([], p)
         else (dispositionParam p ''name'', p))"

definition SetFileName :: "string \<Rightarrow> Part \<Rightarrow> panic + Part" where
  "SetFileName fileName p =
     (case dispositionParams p of
        None \<Rightarrow> Inl NilMapAssignment
      | Some m \<Rightarrow>
          (let params = AList.update ''filename'' fileName m;
               d = FormatMediaType formDataDisposition params
           in case Header_Set contentDispositionHeader d
                     (p\<lparr>dispositionParams := Some params, disposition := d\<rparr>) of
                Inl pn \<Rightarrow> Inl pn
              | Inr p \<Rightarrow> Header_Set contentTypeHeader ''application/octet-stream'' p))"

definition SetContent :: "reader \<Rightarrow> Part \<Rightarrow> Part" where
  "SetContent content p = p\<lparr>Content := Some content\<rparr>"

text \<open>
  \<^verbatim>\<open>SetContentString\<close> and \<^verbatim>\<open>SetContentBytes\<close> reset the reader the part already has
  when it is of the right type, and install a new one otherwise: either way the content
  is a reader over the given bytes, at their start.
\<close>

definition SetContentString :: "string \<Rightarrow> Part \<Rightarrow> Part" where
  "SetContentString content p = SetContent (strings_NewReader content) p"

definition SetContentBytes :: "bytes \<Rightarrow> Part \<Rightarrow> Part" where
  "SetContentBytes content p = SetContent (bytes_NewReader content) p"

definition SetContentType :: "string \<Rightarrow> Part \<Rightarrow> Part" where
  "SetContentType contentType p =
     p\<lparr>Header := Some (MIMEHeader_Set contentTypeHeader contentType (headerOf p))\<rparr>"

definition ContentType :: "Part \<Rightarrow> string" where
  "ContentType p = MIMEHeader_Get contentTypeHeader (headerOf p)"



text \<open>
  The source tree also holds the earlier variant of the method: it reads the signature
  with \<^verbatim>\<open>io.ReadFull\<close>, and then rewinds a seekable content to its start, or puts
  the signature back in front of the remaining stream with \<^verbatim>\<open>io.MultiReader\<close>. A
  content shorter than the signature is replaced by a reader over the bytes read. The
  slice \<^verbatim>\<open>p.signature\<close>, which that variant keeps in the part as scratch space, is
  local to the call here.
\<close>

definition DetectContentType_ReadFull :: "(bytes \<Rightarrow> string) \<Rightarrow> Part \<Rightarrow> panic + Part" where
  "DetectContentType_ReadFull sniff p =
     (case Content p of
        None \<Rightarrow> Inl NilDereference
      | Some c \<Rightarrow>
          (case io_ReadFull c 512 of
             (signature, None, c') \<Rightarrow>
               (let p = SetContentType (sniff signature) (p\<lparr>Content := Some c'\<rparr>)
                in if seek c' \<noteq> NotSeeker then
                     (case reader_SeekStart c' of
                        (Some e, c'') \<Rightarrow>
                          Inr (SetContent
                                (errorReader (Wrapped ''seek after detecting content type'' e)) p)
                      | (None, c'') \<Rightarrow> Inr (p\<lparr>Content := Some c''\<rparr>))
                   else Inr (SetContent (io_MultiReader (bytes_NewReader signature) c') p))
           | (signature, Some e, c') \<Rightarrow>
               if errors_Is e EOF \<or> errors_Is e ErrUnexpectedEOF
               then Inr (SetContentBytes signature
                          (SetContentType (sniff signature) (p\<lparr>Content := Some c'\<rparr>)))
               else Inr (SetContent
                          (errorReader
                            (Wrapped ''peeking content for detecting content type'' e))
                          (p\<lparr>Content := Some c'\<rparr>))))"

text \<open>\<^verbatim>\<open>Reset\<close>: \<^verbatim>\<open>clear\<close> empties the header map and leaves a \<^verbatim>\<open>nil\<close> map \<^verbatim>\<open>nil\<close>.\<close>

definition Part_Reset :: "Part \<Rightarrow> Part" where
  "Part_Reset p =
     p\<lparr>Header := map_option (\<lambda>h. []) (Header p), Content := None, disposition := [],
       dispositionParams := None\<rparr>"

subsection \<open>Sinks\<close>

text \<open>
  The target of \<^verbatim>\<open>WriteTo\<close> is an \<^verbatim>\<open>io.Writer\<close>: the bytes it has accepted, the room
  it has left (\<open>None\<close>: it never fails, as a \<^verbatim>\<open>bytes.Buffer\<close>; \<open>Some n\<close>: it accepts
  \<open>n\<close> more bytes and then fails with a short write), and whether it implements
  \<^verbatim>\<open>io.ReaderFrom\<close>.
\<close>

record writer =
  accepted :: bytes
  room :: "nat option"
  isReaderFrom :: bool

definition writer_Write :: "bytes \<Rightarrow> writer \<Rightarrow> nat \<times> error option \<times> writer" where
  "writer_Write bs w =
     (case room w of
        None \<Rightarrow> (length bs, None, w\<lparr>accepted := accepted w @ bs\<rparr>)
      | Some n \<Rightarrow>
          if length bs \<le> n
          then (length bs, None, w\<lparr>accepted := accepted w @ bs, room := Some (n - length bs)\<rparr>)
          else (n, Some ErrShortWrite, w\<lparr>accepted := accepted w @ take n bs, room := Some 0\<rparr>))"

text \<open>
  \<^verbatim>\<open>bytes.Buffer.WriteTo\<close>: one \<^verbatim>\<open>Write\<close> of the unread bytes; the buffer keeps what
  the sink did not take.
\<close>

definition Buffer_WriteTo :: "bytes \<Rightarrow> writer \<Rightarrow> nat \<times> error option \<times> bytes \<times> writer" where
  "Buffer_WriteTo buf w =
     (if buf = [] then (0, None, [], w)
      else (case writer_Write buf w of (m, e, w') \<Rightarrow> (m, e, drop m buf, w')))"

text \<open>
  \<^verbatim>\<open>bytes.Buffer.Read\<close> into a slice of length \<open>k\<close>: an empty buffer returns
  \<^verbatim>\<open>io.EOF\<close>, unless \<open>k = 0\<close>.
\<close>

definition Buffer_Read :: "nat \<Rightarrow> bytes \<Rightarrow> bytes \<times> error option \<times> bytes" where
  "Buffer_Read k buf =
     (if buf = [] then (if k = 0 then ([], None, []) else ([], Some EOF, []))
      else (take k buf, None, drop k buf))"

text \<open>
  Copying a whole stream to a sink, as the stream's \<^verbatim>\<open>WriteTo\<close>, the sink's
  \<^verbatim>\<open>ReadFrom\<close> and the loop of \<^verbatim>\<open>io.CopyBuffer\<close> all do: the bytes written, and the
  first error of the sink or of the stream (\<^verbatim>\<open>io.EOF\<close> is not an error here).
\<close>

definition copyAll :: "reader \<Rightarrow> writer \<Rightarrow> nat \<times> error option \<times> reader \<times> writer" where
  "copyAll r w =
     (if rest r = [] then (0, (if fin r = EOF then None else Some (fin r)), r, w)
      else (case writer_Write (rest r) w of
              (m, e, w') \<Rightarrow>
                (m,
                 (case e of
                    Some we \<Rightarrow> Some we
                  | None \<Rightarrow> if fin r = EOF then None else Some (fin r)),
                 advance m r, w')))"

definition reader_WriteTo :: "reader \<Rightarrow> writer \<Rightarrow> nat \<times> error option \<times> reader \<times> writer" where
  "reader_WriteTo r w = copyAll r w"

definition writer_ReadFrom :: "writer \<Rightarrow> reader \<Rightarrow> nat \<times> error option \<times> reader \<times> writer" where
  "writer_ReadFrom w r = copyAll r w"

text \<open>
  \<^verbatim>\<open>io.CopyBuffer(dst, src, buf)\<close> with a non-\<^verbatim>\<open>nil\<close> buffer of length \<open>n\<close>: it panics
  when \<open>n = 0\<close>, before it looks at \<open>src\<close> or \<open>dst\<close>.
\<close>

definition io_CopyBuffer ::
  "writer \<Rightarrow> reader option \<Rightarrow> nat \<Rightarrow> panic + (nat \<times> error option \<times> reader \<times> writer)" where
  "io_CopyBuffer dst src n =
     (if n = 0 then Inl EmptyBufferInCopyBuffer
      else (case src of
              None \<Rightarrow> Inl NilDereference
            | Some r \<Rightarrow> Inr (copyAll r dst)))"

subsection \<open>Source\<close>

text \<open>
  A part sequence \<^verbatim>\<open>iter.Seq2[*Part, error]\<close> is the finite list of the pairs it
  yields; a pair with a non-\<^verbatim>\<open>nil\<close> error is \<open>Inl\<close> of the error, since the source
  looks at the error first. \<open>pull\<close> is \<open>None\<close> until \<^verbatim>\<open>iter.Pull2\<close> has been called,
  and then the pairs the iterator has still to yield; \<^verbatim>\<open>stop\<close> leaves it with none.
  \<open>buffered\<close> is the unread content of the \<^verbatim>\<open>bytes.Buffer\<close>.
\<close>

type_synonym item = "error + Part"

record Source =
  boundary :: string
  parts :: "item list"
  pull :: "item list option"
  buffered :: bytes
  firstHeadingWritten :: bool
  lastPart :: "Part option"
  finalizing :: bool
  closed :: bool

definition lowerhex :: string where
  "lowerhex = ''0123456789abcdef''"

text \<open>\<^verbatim>\<open>fmt.Sprintf("%x", b)\<close>: two lower-case hexadecimal digits for each byte.\<close>

definition hexEncode :: "bytes \<Rightarrow> string" where
  "hexEncode bs =
     concat (map (\<lambda>c. [lowerhex ! ((of_char c :: nat) div 16),
                        lowerhex ! ((of_char c :: nat) mod 16)]) bs)"

text \<open>
  \<open>rnd\<close> is the 30 bytes that \<^verbatim>\<open>io.ReadFull\<close> has read from \<^verbatim>\<open>crypto/rand\<close>.
\<close>

definition populateRandomBoundary :: "bytes \<Rightarrow> Source \<Rightarrow> Source" where
  "populateRandomBoundary rnd s = s\<lparr>boundary := hexEncode (take 30 rnd)\<rparr>"

definition NewSource :: "item list \<Rightarrow> bytes \<Rightarrow> Source" where
  "NewSource ps rnd =
     populateRandomBoundary rnd
       \<lparr>boundary = [], parts = ps, pull = None, buffered = [], firstHeadingWritten = False,
        lastPart = None, finalizing = False, closed = False\<rparr>"

definition PartSeq :: "Part list \<Rightarrow> item list" where
  "PartSeq ps = map Inr ps"

definition headerLines :: "MIMEHeader \<Rightarrow> bytes" where
  "headerLines h =
     concat (map (\<lambda>k. concat (map (\<lambda>v. CRLF @ k @ '': '' @ v) (MIMEHeader_index h k)))
               (sortedKeys h))"

definition populatePartHeading :: "Part \<Rightarrow> Source \<Rightarrow> Source" where
  "populatePartHeading part s =
     s\<lparr>firstHeadingWritten := True,
       buffered := (if \<not> firstHeadingWritten s then ''--'' else CRLF @ ''--'')
                   @ boundary s @ headerLines (headerOf part) @ CRLF @ CRLF\<rparr>"

definition populateEnding :: "Source \<Rightarrow> Source" where
  "populateEnding s = s\<lparr>buffered := CRLF @ ''--'' @ boundary s @ ''--'' @ CRLF\<rparr>"

text \<open>
  The second half of \<^verbatim>\<open>Read\<close>: drain the buffer into \<open>p\<close> (of length \<open>k\<close>), then
  either end the stream or read the content of the last part into what is left of \<open>p\<close>.
\<close>

definition drainBuffered :: "nat \<Rightarrow> Source \<Rightarrow> (bytes \<times> error \<times> Source) + (bytes \<times> Source)" where
  "drainBuffered k s =
     (if buffered s \<noteq> [] then
        (case Buffer_Read k (buffered s) of
           (bs, None, buf) \<Rightarrow> Inr (bs, s\<lparr>buffered := buf\<rparr>)
         | (bs, Some e, buf) \<Rightarrow>
             if errors_Is e EOF then Inr ([], s\<lparr>buffered := buf\<rparr>)
             else Inl (bs, e, s\<lparr>buffered := buf\<rparr>))
      else Inr ([], s))"

definition readLastPart :: "nat \<Rightarrow> Source \<Rightarrow> panic + (bytes \<times> error option \<times> Source)" where
  "readLastPart k s =
     (case drainBuffered k s of
        Inl (bs, e, s) \<Rightarrow> Inr (bs, Some e, s)
      | Inr (got, s) \<Rightarrow>
          if finalizing s then
            (if got \<noteq> [] then Inr (got, None, s) else Inr ([], Some EOF, s))
          else
            (case lastPart s of
               None \<Rightarrow> Inl NilDereference
             | Some part \<Rightarrow>
                 (case Content part of
                    None \<Rightarrow> Inl NilDereference
                  | Some c \<Rightarrow>
                      (case reader_Read (k - length got) c of
                         (bs, Some e, c') \<Rightarrow>
                           if errors_Is e EOF then Inr (got @ bs, None, s\<lparr>lastPart := None\<rparr>)
                           else Inr (got @ bs, Some e,
                                     s\<lparr>lastPart := Some (part\<lparr>Content := Some c'\<rparr>)\<rparr>)
                       | (bs, None, c') \<Rightarrow>
                           Inr (got @ bs, None,
                                s\<lparr>lastPart := Some (part\<lparr>Content := Some c'\<rparr>)\<rparr>)))))"

text \<open>
  \<^verbatim>\<open>Read(p)\<close> with \<open>len(p) = k\<close>: the bytes written to \<open>p\<close> (their number is the
  \<open>n\<close> returned), the error, and the source afterwards.
\<close>

definition Read :: "nat \<Rightarrow> Source \<Rightarrow> panic + (bytes \<times> error option \<times> Source)" where
  "Read k s =
     (if closed s then Inr ([], Some SourceClosed, s)
      else
        (let s = (if pull s = None then s\<lparr>pull := Some (parts s)\<rparr> else s)
         in if lastPart s = None \<and> \<not> finalizing s then
              (case pull s of
                 None \<Rightarrow> Inl NilDereference
               | Some [] \<Rightarrow>
                   (let s = populateEnding (s\<lparr>finalizing := True\<rparr>)
                    in case Buffer_Read k (buffered s) of
                         (bs, err, buf) \<Rightarrow> Inr (bs, err, s\<lparr>buffered := buf\<rparr>))
               | Some (Inl e # items) \<Rightarrow> Inr ([], Some e, s\<lparr>pull := Some items\<rparr>)
               | Some (Inr part # items) \<Rightarrow>
                   readLastPart k
                     (populatePartHeading part (s\<lparr>pull := Some items, lastPart := Some part\<rparr>)))
            else readLastPart k s))"

text \<open>
  \<^verbatim>\<open>bytes.Buffer.Grow(n)\<close> makes room for \<open>n\<close> more bytes and leaves the content as it
  is; \<^verbatim>\<open>Bytes()\<close> is the slice of the unread bytes, of length \<^verbatim>\<open>Len()\<close>.
\<close>

definition Buffer_Grow :: "int \<Rightarrow> bytes \<Rightarrow> bytes" where
  "Buffer_Grow n buf = buf"

definition Buffer_Bytes :: "bytes \<Rightarrow> bytes" where
  "Buffer_Bytes buf = buf"

text \<open>
  \<^verbatim>\<open>writePartContent\<close>: the content's own \<^verbatim>\<open>WriteTo\<close>, else the sink's
  \<^verbatim>\<open>ReadFrom\<close>, else \<^verbatim>\<open>io.CopyBuffer\<close> with the bytes of the source's buffer,
  reset and grown to the buffer size, as the scratch buffer.
\<close>

definition writePartContent ::
  "Part \<Rightarrow> writer \<Rightarrow> Source \<Rightarrow> panic + (nat \<times> error option \<times> writer \<times> Source)" where
  "writePartContent part target s =
     (case (case Content part of None \<Rightarrow> None
            | Some c \<Rightarrow> if isWriterTo c then Some c else None) of
        Some wt \<Rightarrow> (case reader_WriteTo wt target of (n, e, c', w') \<Rightarrow> Inr (n, e, w', s))
      | None \<Rightarrow>
          if isReaderFrom target then
            (case Content part of
               None \<Rightarrow> Inl NilDereference
             | Some c \<Rightarrow> (case writer_ReadFrom target c of (n, e, c', w') \<Rightarrow> Inr (n, e, w', s)))
          else
            (let bufferSize = (32 * 1024 :: int);
                 bufferSize =
                   (case (case Content part of None \<Rightarrow> None | Some c \<Rightarrow> limitN c) of
                      Some N \<Rightarrow>
                        if bufferSize > N then (if N < 1 then 1 else N) else bufferSize
                    | None \<Rightarrow> bufferSize);
                 s = s\<lparr>buffered := Buffer_Grow bufferSize []\<rparr>
             in case io_CopyBuffer target (Content part) (length (Buffer_Bytes (buffered s))) of
                  Inl pn \<Rightarrow> Inl pn
                | Inr (n, e, c', w') \<Rightarrow> Inr (n, e, w', s)))"

text \<open>The loop of \<^verbatim>\<open>WriteTo\<close> over the part sequence, with the running count \<open>n\<close>.\<close>

fun writeParts ::
  "item list \<Rightarrow> writer \<Rightarrow> Source \<Rightarrow> nat \<Rightarrow> panic + (nat \<times> error option \<times> writer \<times> Source)" where
  "writeParts [] target s n =
     (let s = populateEnding s
      in case Buffer_WriteTo (buffered s) target of
           (endSize, err, buf, target) \<Rightarrow> Inr (n + endSize, err, target, s\<lparr>buffered := buf\<rparr>))"
| "writeParts (Inl err # items) target s n = Inr (n, Some err, target, s)"
| "writeParts (Inr part # items) target s n =
     (let s = populatePartHeading part s
      in case Buffer_WriteTo (buffered s) target of
           (partHeadingSize, err, buf, target) \<Rightarrow>
             (let s = s\<lparr>buffered := buf\<rparr>; n = n + partHeadingSize
              in case err of
                   Some e \<Rightarrow> Inr (n, Some e, target, s)
                 | None \<Rightarrow>
                     (case writePartContent part target s of
                        Inl pn \<Rightarrow> Inl pn
                      | Inr (contentSize, err, target, s) \<Rightarrow>
                          (let n = n + contentSize
                           in case err of
                                Some e \<Rightarrow> Inr (n, Some e, target, s)
                              | None \<Rightarrow> writeParts items target s n))))"

definition WriteTo :: "writer \<Rightarrow> Source \<Rightarrow> panic + (nat \<times> error option \<times> writer \<times> Source)" where
  "WriteTo target s =
     (if closed s then Inr (0, Some SourceClosed, target, s)
      else writeParts (parts s) target s 0)"

text \<open>
  The loop of \<^verbatim>\<open>SetBoundary\<close> over the characters of the candidate, \<open>i\<close> being the
  index of the character at hand: \<open>True\<close> when no character makes it return an
  error. The loop ranges over runes; a byte below \<open>0x80\<close> is a rune of its own, and a
  byte from \<open>0x80\<close> on starts a rune which is none of the characters allowed, so that
  the byte fails each test as its rune does.
\<close>

fun boundaryChars :: "nat \<Rightarrow> nat \<Rightarrow> string \<Rightarrow> bool" where
  "boundaryChars end' i [] = True"
| "boundaryChars end' i (b # bs) =
     (if CHR ''A'' \<le> b \<and> b \<le> CHR ''Z'' \<or> CHR ''a'' \<le> b \<and> b \<le> CHR ''z''
         \<or> CHR ''0'' \<le> b \<and> b \<le> CHR ''9''
      then boundaryChars end' (i + 1) bs
      else if b \<in> set ([CHR 0x27] @ ''()+_,-./:=?'') then boundaryChars end' (i + 1) bs
      else if b = CHR '' '' \<and> i \<noteq> end' then boundaryChars end' (i + 1) bs
      else False)"

definition SetBoundary :: "string \<Rightarrow> Source \<Rightarrow> error option \<times> Source" where
  "SetBoundary b s =
     (if lastPart s \<noteq> None then (Some SetBoundaryAfterRead, s)
      else if length b < 1 \<or> length b > 70 then (Some InvalidBoundaryLength, s)
      else if \<not> boundaryChars (length b - 1) 0 b then (Some InvalidBoundaryCharacter, s)
      else (None, s\<lparr>boundary := b\<rparr>))"

definition FormDataContentType :: "Source \<Rightarrow> string" where
  "FormDataContentType s = FormatMediaType ''multipart/form-data'' [(''boundary'', boundary s)]"

definition Boundary :: "Source \<Rightarrow> string" where
  "Boundary s = boundary s"

text \<open>\<^verbatim>\<open>s.stop()\<close>, when \<^verbatim>\<open>iter.Pull2\<close> has been called: the iterator yields no more.\<close>

definition stopPull :: "Source \<Rightarrow> Source" where
  "stopPull s = (case pull s of None \<Rightarrow> s | Some items \<Rightarrow> s\<lparr>pull := Some []\<rparr>)"

definition Close :: "Source \<Rightarrow> error option \<times> Source" where
  "Close s =
     (None,
      (stopPull s)\<lparr>boundary := [], buffered := [], firstHeadingWritten := False,
                   finalizing := False, lastPart := None, closed := True\<rparr>)"

definition Reset :: "item list \<Rightarrow> bytes \<Rightarrow> Source \<Rightarrow> Source" where
  "Reset ps rnd s =
     (populateRandomBoundary rnd (stopPull s))
       \<lparr>parts := ps, buffered := [], firstHeadingWritten := False, finalizing := False,
        lastPart := None, closed := False\<rparr>"

text \<open>
  Reading a source to exhaustion with a buffer of \<open>k\<close> bytes, as \<^verbatim>\<open>io.ReadAll\<close> or
  \<^verbatim>\<open>bytes.Buffer.ReadFrom\<close> do with theirs: \<^verbatim>\<open>Read\<close> is called until it returns an
  error. The result is the concatenation of what the calls delivered, the error that
  ended the loop (\<^verbatim>\<open>io.EOF\<close> at the end of the stream) and the source afterwards; it is
  \<open>None\<close> when the loop does not end.
\<close>

partial_function (option) readAll ::
  "nat \<Rightarrow> Source \<Rightarrow> bytes \<Rightarrow> (panic + (bytes \<times> error \<times> Source)) option" where
  "readAll k s acc =
     (case Read k s of
        Inl pn \<Rightarrow> Some (Inl pn)
      | Inr (bs, Some e, s') \<Rightarrow> Some (Inr (acc @ bs, e, s'))
      | Inr (bs, None, s') \<Rightarrow> readAll k s' (acc @ bs))"

declare readAll.simps [code]

section \<open>The specification's words, and concrete inputs\<close>

text \<open>
  The specification's rule for an explicit boundary: 1 to 70 bytes, each an ASCII
  letter, a digit or one of \<^verbatim>\<open>'()+_,-./:=?\<close>, or a space that is not the last
  character.
\<close>

definition boundaryCharAllowed :: "char \<Rightarrow> bool" where
  "boundaryCharAllowed c =
     (CHR ''A'' \<le> c \<and> c \<le> CHR ''Z'' \<or> CHR ''a'' \<le> c \<and> c \<le> CHR ''z''
      \<or> CHR ''0'' \<le> c \<and> c \<le> CHR ''9''
      \<or> c \<in> {CHR 0x27, CHR ''('', CHR '')'', CHR ''+'', CHR ''_'', CHR '','', CHR ''-'',
               CHR ''.'', CHR ''/'', CHR '':'', CHR ''='', CHR ''?''})"

definition acceptedBoundary :: "string \<Rightarrow> bool" where
  "acceptedBoundary b =
     (1 \<le> length b \<and> length b \<le> 70
      \<and> (\<forall>i < length b. boundaryCharAllowed (b ! i)
                          \<or> (b ! i = CHR '' '' \<and> i \<noteq> length b - 1)))"

text \<open>
  The wire format of the specification: for each part its heading, \<^verbatim>\<open>--\<close> and the
  boundary (after a line break, except for the first part), a line \<^verbatim>\<open>key: value\<close>
  for every value of every header key in ascending key order, and an empty line; then
  its content; and after the last part the closing delimiter.
\<close>

definition contentBytes :: "Part \<Rightarrow> bytes" where
  "contentBytes p = (case Content p of None \<Rightarrow> [] | Some c \<Rightarrow> rest c)"

definition partHeading :: "bool \<Rightarrow> string \<Rightarrow> Part \<Rightarrow> bytes" where
  "partHeading later b p =
     (if later then CRLF @ ''--'' else ''--'') @ b @ headerLines (headerOf p) @ CRLF @ CRLF"

definition trailer :: "string \<Rightarrow> bytes" where
  "trailer b = CRLF @ ''--'' @ b @ ''--'' @ CRLF"

fun wireFormat :: "bool \<Rightarrow> string \<Rightarrow> Part list \<Rightarrow> bytes" where
  "wireFormat later b [] = trailer b"
| "wireFormat later b (p # ps) = partHeading later b p @ contentBytes p @ wireFormat True b ps"

text \<open>
  What the \<^verbatim>\<open>Read\<close> loop delivers with a buffer of \<open>k\<close> bytes: the wire format,
  except that of a part with empty content, whose stream answers a \<^verbatim>\<open>Read\<close> into an
  empty slice with \<^verbatim>\<open>io.EOF\<close>, only the first \<open>k\<close> bytes of the heading appear.
\<close>

definition quietEnd :: "Part \<Rightarrow> bool" where
  "quietEnd p = (case Content p of None \<Rightarrow> False | Some c \<Rightarrow> quietAtEnd c)"

fun chunkedOutput :: "nat \<Rightarrow> bool \<Rightarrow> string \<Rightarrow> Part list \<Rightarrow> bytes" where
  "chunkedOutput k later b [] = trailer b"
| "chunkedOutput k later b (p # ps) =
     (if contentBytes p = [] \<and> \<not> quietEnd p then take k (partHeading later b p)
      else partHeading later b p @ contentBytes p)
     @ chunkedOutput k True b ps"

text \<open>A part whose content is there and ends with \<^verbatim>\<open>io.EOF\<close>.\<close>

definition readablePart :: "Part \<Rightarrow> bool" where
  "readablePart p = (case Content p of None \<Rightarrow> False | Some c \<Rightarrow> fin c = EOF)"

definition hasWriterTo :: "Part \<Rightarrow> bool" where
  "hasWriterTo p = (case Content p of None \<Rightarrow> False | Some c \<Rightarrow> isWriterTo c)"

text \<open>Thirty zero bytes from the random source: the boundary is sixty zeros.\<close>

definition zeroRand :: bytes where
  "zeroRand = replicate 30 (CHR 0x00)"

text \<open>
  The part \<^verbatim>\<open>NewPart().SetFormName("file").SetContentType("text/plain")\<close>.
\<close>

definition formFieldPart :: Part where
  "formFieldPart =
     \<lparr>Header = Some [(''Content-Disposition'', [''form-data; name=file'']),
                      (''Content-Type'', [''text/plain''])],
      Content = None, disposition = ''form-data; name=file'',
      dispositionParams = Some [(''name'', ''file'')]\<rparr>"

text \<open>An empty \<^verbatim>\<open>bytes.Buffer\<close> as sink, and a sink that is an \<^verbatim>\<open>io.Writer\<close> only.\<close>

definition bufferSink :: writer where
  "bufferSink = \<lparr>accepted = [], room = None, isReaderFrom = True\<rparr>"

definition plainSink :: writer where
  "plainSink = \<lparr>accepted = [], room = None, isReaderFrom = False\<rparr>"

text \<open>A form field with an empty value: \<^verbatim>\<open>NewPart().SetContentString("")\<close>.\<close>

definition emptyFieldPart :: Part where
  "emptyFieldPart = SetContentString [] NewPart"

definition emptyFieldSource :: Source where
  "emptyFieldSource = snd (SetBoundary ''b'' (NewSource (PartSeq [emptyFieldPart]) zeroRand))"

text \<open>The part, the source and the expected output of the test \<^verbatim>\<open>TestSortedHeader\<close>.\<close>

definition sortedHeaderEntries :: MIMEHeader where
  "sortedHeaderEntries =
     [(''A'', [''2'']), (''B'', [''5'', ''7'', ''6'']), (''C'', [''4'']), (''M'', [''3'']),
      (''Z'', [''1''])]"

text \<open>
  The same map with its entries in another order: a Go map has none, and the test's
  literal may reach the encoder as any list with this \<^const>\<open>map_of\<close>.
\<close>

definition shuffledHeaderEntries :: MIMEHeader where
  "shuffledHeaderEntries =
     [(''Z'', [''1'']), (''B'', [''5'', ''7'', ''6'']), (''M'', [''3'']), (''A'', [''2'']),
      (''C'', [''4''])]"

definition headerPart :: "MIMEHeader \<Rightarrow> Part" where
  "headerPart h =
     SetContentString ''foo''
       \<lparr>Header = Some h, Content = None, disposition = [], dispositionParams = None\<rparr>"

definition sortedHeaderPart :: Part where
  "sortedHeaderPart = headerPart sortedHeaderEntries"

definition sortedHeaderWant :: bytes where
  "sortedHeaderWant =
     ''--MIMEBOUNDARY'' @ CRLF @ ''A: 2'' @ CRLF @ ''B: 5'' @ CRLF @ ''B: 7'' @ CRLF
     @ ''B: 6'' @ CRLF @ ''C: 4'' @ CRLF @ ''M: 3'' @ CRLF @ ''Z: 1'' @ CRLF @ CRLF
     @ ''foo'' @ CRLF @ ''--MIMEBOUNDARY--'' @ CRLF"

definition sortedHeaderSource :: "MIMEHeader \<Rightarrow> bytes \<Rightarrow> Source" where
  "sortedHeaderSource h rnd =
     snd (SetBoundary ''MIMEBOUNDARY'' (NewSource (PartSeq [headerPart h]) rnd))"

text \<open>A source over the empty sequence, and the same after a \<^verbatim>\<open>Read\<close> into four bytes.\<close>

definition emptySource :: Source where
  "emptySource = snd (SetBoundary ''b'' (NewSource (PartSeq []) zeroRand))"

definition trailerPending :: Source where
  "trailerPending = snd (snd (projr (Read 4 emptySource)))"

text \<open>
  A source over two parts with contents \<^verbatim>\<open>a\<close> and \<^verbatim>\<open>b\<close>, the same after one
  \<^verbatim>\<open>Read\<close> into 100 bytes, and after a second.
\<close>

definition twoPartSource :: Source where
  "twoPartSource =
     snd (SetBoundary ''X''
            (NewSource (PartSeq [SetContentString ''a'' NewPart, SetContentString ''b'' NewPart])
               zeroRand))"

definition afterFirstRead :: Source where
  "afterFirstRead = snd (snd (projr (Read 100 twoPartSource)))"

definition betweenParts :: Source where
  "betweenParts = snd (snd (projr (Read 100 afterFirstRead)))"

text \<open>The bytes and the final error of a read loop, without the final state.\<close>

definition delivered ::
  "(panic + (bytes \<times> error \<times> Source)) option \<Rightarrow> (panic + bytes \<times> error) option" where
  "delivered r = map_option (map_sum id (\<lambda>(out, e, s). (out, e))) r"

text \<open>A part whose content is \<^verbatim>\<open>io.LimitReader(strings.NewReader("foo"), 3)\<close>.\<close>

definition limitedPart :: Part where
  "limitedPart = SetContent (io_LimitReader (strings_NewReader ''foo'') 3) NewPart"

text \<open>
  A new source over one part with content \<^verbatim>\<open>a\<close>, and the same after a \<^verbatim>\<open>Read\<close> into
  a slice of length zero.
\<close>

definition onePartSource :: Source where
  "onePartSource = NewSource (PartSeq [SetContentString ''a'' NewPart]) zeroRand"

definition afterZeroRead :: Source where
  "afterZeroRead = snd (snd (projr (Read 0 onePartSource)))"


definition consumedStream :: reader where
  "consumedStream = advance 1 (strings_NewReader (CHR ''y'' # replicate 600 (CHR ''x'')))"



definition htmlSniff :: "bytes \<Rightarrow> string" where
  "htmlSniff signature =
     (if take 6 signature = ''<html>'' then ''text/html; charset=utf-8''
      else ''application/octet-stream'')"

section \<open>Properties of parts\<close>

lemma MIMEHeader_Get_Set: "MIMEHeader_Get k (MIMEHeader_Set k v h) = v"
  by (simp add: MIMEHeader_Get_def MIMEHeader_Set_def MIMEHeader_index_def update_conv')

lemma MIMEHeader_index_Set:
  "MIMEHeader_index (MIMEHeader_Set k v h) k' = (if k' = k then [v] else MIMEHeader_index h k')"
  by (simp add: MIMEHeader_Set_def MIMEHeader_index_def update_conv')

lemma FormatMediaType_name_example:
  "FormatMediaType formDataDisposition [(''name'', ''key'')] = ''form-data; name=key''"
  by (simp add: FormatMediaType_def formatType_def isToken_def
      isTokenChar_def isTSpecial_def tspecials_def formDataDisposition_def sortedKeys_def
      toLowerASCII_def formatValue_def needsEncoding_def paramsIndex_def)

lemma formFieldPart_built:
  "map_sum id (SetContentType ''text/plain'') (SetFormName ''file'' NewPart) = Inr formFieldPart"
  by (simp add: SetFormName_def NewPart_def FormatMediaType_def formatType_def isToken_def
      isTokenChar_def isTSpecial_def tspecials_def formDataDisposition_def sortedKeys_def
      toLowerASCII_def formatValue_def needsEncoding_def paramsIndex_def Header_Set_def
      contentDispositionHeader_def MIMEHeader_Set_def SetContentType_def headerOf_def
      contentTypeHeader_def formFieldPart_def Let_def)

text \<open>
  On a new part the disposition cache is \<^verbatim>\<open>nil\<close>, and \<^verbatim>\<open>SetFileName\<close> panics in its
  first assignment.
\<close>

lemma SetFileName_NewPart_panics: "SetFileName fileName NewPart = Inl NilMapAssignment"
  by (simp add: SetFileName_def NewPart_def)

text \<open>
  C7, as claimed: \<^verbatim>\<open>SetFileName\<close> leaves a Content-Type that was set explicitly. It
  does not: on the part with Content-Type \<^verbatim>\<open>text/plain\<close>, \<^verbatim>\<open>SetFileName("a.txt")\<close>
  leaves \<^verbatim>\<open>application/octet-stream\<close>.
\<close>

theorem SetFileName_ContentType_counterexample:
  "ContentType formFieldPart = ''text/plain'' \<and>
   map_sum id ContentType (SetFileName ''a.txt'' formFieldPart) = Inr ''application/octet-stream''"
  by (simp add: formFieldPart_def ContentType_def headerOf_def MIMEHeader_Get_def
      MIMEHeader_index_def contentTypeHeader_def SetFileName_def Header_Set_def
      MIMEHeader_Set_def contentDispositionHeader_def Let_def)

text \<open>
  C7, amended: on a part with a header map and a disposition cache (any part that
  \<^verbatim>\<open>SetFormName\<close> has returned), \<^verbatim>\<open>SetFileName\<close> returns; afterwards the Content-Type
  is \<^verbatim>\<open>application/octet-stream\<close>, whatever it was before, and the Content-Disposition
  is the serialisation of the cached parameters with the new \<^verbatim>\<open>filename\<close>.
\<close>

theorem SetFileName_overwrites_ContentType:
  assumes "dispositionParams p = Some m" and "Header p = Some h"
  shows "\<exists>p'. SetFileName fileName p = Inr p'
           \<and> ContentType p' = ''application/octet-stream''
           \<and> MIMEHeader_index (headerOf p') contentDispositionHeader
               = [FormatMediaType formDataDisposition (AList.update ''filename'' fileName m)]
           \<and> dispositionParams p' = Some (AList.update ''filename'' fileName m)"
  using assms
  by (simp add: SetFileName_def Header_Set_def ContentType_def headerOf_def MIMEHeader_Get_Set
      MIMEHeader_index_Set contentDispositionHeader_def contentTypeHeader_def Let_def)

theorem SetFileName_overwrites_ContentType_witness:
  "\<exists>p'. SetFileName ''a.txt'' formFieldPart = Inr p'
     \<and> ContentType p' = ''application/octet-stream''
     \<and> MIMEHeader_index (headerOf p') contentDispositionHeader
         = [FormatMediaType formDataDisposition
              (AList.update ''filename'' ''a.txt'' [(''name'', ''file'')])]
     \<and> dispositionParams p' = Some (AList.update ''filename'' ''a.txt'' [(''name'', ''file'')])"
  by (rule SetFileName_overwrites_ContentType) (simp_all add: formFieldPart_def)

lemma FormatMediaType_name_neq:
  "FormatMediaType formDataDisposition (AList.update ''name'' n []) \<noteq> formDataDisposition"
  by (auto simp: FormatMediaType_def formatType_def formDataDisposition_def sortedKeys_def
      isToken_def isTokenChar_def isTSpecial_def tspecials_def toLowerASCII_def
      split: option.splits)

text \<open>
  C10: on a new part, \<^verbatim>\<open>SetFormName(n)\<close> and then \<^verbatim>\<open>FormName()\<close> should return \<open>n\<close>.
  The code returns the empty string for every \<open>n\<close>: \<^verbatim>\<open>SetFormName\<close> stores the whole
  serialised header value in \<open>disposition\<close>, \<^verbatim>\<open>parseContentDisposition\<close> finds it
  equal to the header and returns without parsing, and \<^verbatim>\<open>FormName\<close> then compares it
  with \<^verbatim>\<open>form-data\<close>.
\<close>

theorem FormName_after_SetFormName:
  "\<exists>p. SetFormName n NewPart = Inr p \<and> fst (FormName ParseMediaType p) = []
      \<and> MIMEHeader_index (headerOf p) contentDispositionHeader
          = [FormatMediaType formDataDisposition [(''name'', n)]]"
  using FormatMediaType_name_neq[of n]
  by (simp add: SetFormName_def NewPart_def Header_Set_def FormName_def
      parseContentDisposition_def headerOf_def MIMEHeader_index_Set Let_def)

theorem FormName_after_SetFormName_witness:
  "\<exists>p. SetFormName ''key'' NewPart = Inr p
      \<and> fst (FormName (\<lambda>v. ([], None, Some (Opaque ''not called''))) p) = []
      \<and> MIMEHeader_index (headerOf p) contentDispositionHeader
          = [FormatMediaType formDataDisposition [(''name'', ''key'')]]"
  by (rule FormName_after_SetFormName)

section \<open>Boundaries and closing\<close>

lemma boundaryChars_iff:
  "boundaryChars e i bs
     = (\<forall>j < length bs. boundaryCharAllowed (bs ! j) \<or> (bs ! j = CHR '' '' \<and> i + j \<noteq> e))"
proof (induction bs arbitrary: i)
  case Nil
  then show ?case by simp
next
  case (Cons b bs)
  have step: "(\<forall>j < Suc (length bs). P j) = (P 0 \<and> (\<forall>j < length bs. P (Suc j)))" for P
    by (auto simp: less_Suc_eq_0_disj)
  show ?case
    by (simp add: Cons.IH step boundaryCharAllowed_def)
qed

lemma SetBoundary_ok_iff:
  "lastPart s = None \<Longrightarrow> (fst (SetBoundary b s) = None) = acceptedBoundary b"
  by (cases b) (auto simp: SetBoundary_def acceptedBoundary_def boundaryChars_iff)

lemma SetBoundary_fail_keeps:
  "fst (SetBoundary b s) \<noteq> None \<Longrightarrow> snd (SetBoundary b s) = s"
  by (auto simp: SetBoundary_def split: if_splits)

lemma lastPart_NewSource: "lastPart (NewSource ps rnd) = None"
  by (simp add: NewSource_def populateRandomBoundary_def)

lemma Read_zero_onePartSource:
  "map_sum id (\<lambda>(bs, e, s). (bs, e)) (Read 0 onePartSource) = Inr ([], None)"
  "lastPart afterZeroRead \<noteq> None"
  by (simp_all add: afterZeroRead_def onePartSource_def NewSource_def populateRandomBoundary_def
      PartSeq_def Read_def populatePartHeading_def readLastPart_def drainBuffered_def
      Buffer_Read_def reader_Read_def SetContentString_def SetContent_def
      strings_NewReader_def bytes_NewReader_def NewPart_def)

text \<open>
  C3, as claimed: on a source that has produced no output, \<^verbatim>\<open>SetBoundary(b)\<close>
  succeeds exactly for the candidates the specification accepts. It does not after a
  \<^verbatim>\<open>Read\<close> into a slice of length zero: the \<^verbatim>\<open>Read\<close> delivers nothing, yet it pulls
  the first part, and \<^verbatim>\<open>SetBoundary("abc")\<close> then fails with the error of a boundary
  set after a read, although the specification accepts \<^verbatim>\<open>abc\<close>.
\<close>

theorem SetBoundary_after_zero_Read_counterexample:
  "map_sum id (\<lambda>(bs, e, s). (bs, e)) (Read 0 onePartSource) = Inr ([], None)
   \<and> acceptedBoundary ''abc''
   \<and> fst (SetBoundary ''abc'' afterZeroRead) = Some SetBoundaryAfterRead"
proof -
  have "acceptedBoundary ''abc''"
    unfolding SetBoundary_ok_iff[OF lastPart_NewSource[of "[]" zeroRand], symmetric]
    by (simp add: SetBoundary_def lastPart_NewSource)
  then show ?thesis
    using Read_zero_onePartSource by (simp add: SetBoundary_def)
qed

text \<open>
  C3, amended: on a source that holds no part (a new one, until a \<^verbatim>\<open>Read\<close> pulls
  the first part), \<^verbatim>\<open>SetBoundary(b)\<close> succeeds exactly for the candidates the
  specification accepts, and then \<open>b\<close> is the boundary; a \<^verbatim>\<open>SetBoundary\<close> that fails,
  in any state, leaves the boundary as it was; and on a source that holds a part it
  fails, whatever the candidate.
\<close>

theorem SetBoundary_acceptance:
  "lastPart s = None \<Longrightarrow>
     ((fst (SetBoundary b s) = None) = acceptedBoundary b)
     \<and> (fst (SetBoundary b s) = None \<longrightarrow> Boundary (snd (SetBoundary b s)) = b)
     \<and> (fst (SetBoundary b s') \<noteq> None \<longrightarrow> Boundary (snd (SetBoundary b s')) = Boundary s')
     \<and> (lastPart s' \<noteq> None \<longrightarrow> SetBoundary b s' = (Some SetBoundaryAfterRead, s'))"
  using SetBoundary_ok_iff[of s b] SetBoundary_fail_keeps[of b s']
  by (auto simp: SetBoundary_def Boundary_def split: if_splits)

theorem SetBoundary_acceptance_witness:
  "lastPart (NewSource [] zeroRand) = None
   \<and> fst (SetBoundary ''with space'' (NewSource [] zeroRand)) = None
   \<and> acceptedBoundary ''with space''
   \<and> Boundary (snd (SetBoundary ''with space'' (NewSource [] zeroRand))) = ''with space''
   \<and> SetBoundary ''with space'' afterZeroRead = (Some SetBoundaryAfterRead, afterZeroRead)
   \<and> Boundary (snd (SetBoundary ''with space'' afterZeroRead)) = Boundary afterZeroRead"
  using SetBoundary_acceptance[where s="NewSource [] zeroRand" and b="''with space''"
      and s'="afterZeroRead"] Read_zero_onePartSource(2)
  by (simp add: SetBoundary_def lastPart_NewSource)

lemma closed_Close: "closed (snd (Close s))"
  by (simp add: Close_def)

lemma lastPart_Close: "lastPart (snd (Close s)) = None"
  by (simp add: Close_def)

text \<open>
  C9, as claimed: after \<^verbatim>\<open>Close\<close> every operation returns an error, \<^verbatim>\<open>SetBoundary\<close>
  among them. It does not: \<^verbatim>\<open>SetBoundary("abc")\<close> on a closed source returns no error.
\<close>

theorem Close_then_SetBoundary_counterexample:
  "fst (SetBoundary ''abc'' (snd (Close (NewSource [] zeroRand)))) = None"
  by (simp add: SetBoundary_def Close_def stopPull_def NewSource_def populateRandomBoundary_def)

text \<open>
  C9, amended: \<^verbatim>\<open>Close\<close> returns no error; after it \<^verbatim>\<open>Read\<close> and \<^verbatim>\<open>WriteTo\<close> deliver
  nothing and return the closed-source error, until \<^verbatim>\<open>Reset\<close> clears the flag; the
  boundary is empty; and \<^verbatim>\<open>SetBoundary\<close> does not look at the flag: it succeeds exactly
  for the candidates the specification accepts.
\<close>

theorem Close_then_operations:
  "fst (Close s) = None
   \<and> Read k (snd (Close s)) = Inr ([], Some SourceClosed, snd (Close s))
   \<and> WriteTo target (snd (Close s)) = Inr (0, Some SourceClosed, target, snd (Close s))
   \<and> Boundary (snd (Close s)) = []
   \<and> (fst (SetBoundary b (snd (Close s))) = None) = acceptedBoundary b
   \<and> closed (Reset ps rnd (snd (Close s))) = False"
  using SetBoundary_ok_iff[where s="snd (Close s)" and b=b, OF lastPart_Close]
  by (simp add: Read_def WriteTo_def closed_Close Reset_def) (simp add: Close_def Boundary_def)

theorem Close_then_operations_witness:
  "Read 512 (snd (Close (NewSource [] zeroRand)))
     = Inr ([], Some SourceClosed, snd (Close (NewSource [] zeroRand)))
   \<and> fst (SetBoundary ''abc'' (snd (Close (NewSource [] zeroRand)))) = None
   \<and> fst (SetBoundary ''a!c'' (snd (Close (NewSource [] zeroRand))))
       = Some InvalidBoundaryCharacter"
  using Close_then_operations[of "NewSource [] zeroRand" 512 bufferSink "''abc''" "[]" "[]"]
  by (simp add: SetBoundary_def lastPart_Close)

section \<open>The read loop and the bulk copy\<close>

lemma Source_buffered_same: "buffered s = b \<Longrightarrow> s\<lparr>buffered := b\<rparr> = s"
  by (cases s) simp

lemma drainBuffered_eq:
  "drainBuffered k s = Inr (take k (buffered s), s\<lparr>buffered := drop k (buffered s)\<rparr>)"
  by (simp add: drainBuffered_def Buffer_Read_def Source_buffered_same)

lemma Read_holding:
  "\<not> closed s \<Longrightarrow> pull s \<noteq> None \<Longrightarrow> lastPart s \<noteq> None \<or> finalizing s
     \<Longrightarrow> Read k s = readLastPart k s"
  by (auto simp: Read_def)

lemma Read_pull_init:
  "\<not> closed s \<Longrightarrow> pull s = None \<Longrightarrow> Read k s = Read k (s\<lparr>pull := Some (parts s)\<rparr>)"
  by (simp add: Read_def)

lemma readLastPart_finalizing:
  "finalizing s \<Longrightarrow>
     readLastPart k s
       = Inr (take k (buffered s), (if take k (buffered s) = [] then Some EOF else None),
              s\<lparr>buffered := drop k (buffered s)\<rparr>)"
  by (simp add: readLastPart_def drainBuffered_eq)

lemma readAll_trailer:
  assumes "0 < k"
  shows "\<not> closed s \<Longrightarrow> finalizing s \<Longrightarrow> pull s \<noteq> None
           \<Longrightarrow> readAll k s acc = Some (Inr (acc @ buffered s, EOF, s\<lparr>buffered := []\<rparr>))"
proof (induction "length (buffered s)" arbitrary: s acc rule: less_induct)
  case less
  have rd: "Read k s = Inr (take k (buffered s),
               (if take k (buffered s) = [] then Some EOF else None),
               s\<lparr>buffered := drop k (buffered s)\<rparr>)"
    using less.prems by (simp add: Read_holding readLastPart_finalizing)
  show ?case
  proof (cases "buffered s = []")
    case True
    then show ?thesis
      using assms by (subst readAll.simps) (simp add: rd Source_buffered_same)
  next
    case False
    let ?s = "s\<lparr>buffered := drop k (buffered s)\<rparr>"
    have nonempty: "take k (buffered s) \<noteq> []"
      using False assms by simp
    have shorter: "length (buffered ?s) < length (buffered s)"
      using False assms by simp
    have "readAll k s acc = readAll k ?s (acc @ take k (buffered s))"
      using False assms by (subst readAll.simps) (simp add: rd)
    also have "\<dots> = Some (Inr ((acc @ take k (buffered s)) @ buffered ?s, EOF, ?s\<lparr>buffered := []\<rparr>))"
      using less.prems by (intro less.hyps[OF shorter]) simp_all
    finally show ?thesis by simp
  qed
qed

lemma readLastPart_streaming:
  assumes "\<not> finalizing s" "lastPart s = Some p" "Content p = Some c"
  shows "readLastPart k s =
           (case reader_Read (k - length (take k (buffered s))) c of
              (bs, Some e, c') \<Rightarrow>
                if errors_Is e EOF
                then Inr (take k (buffered s) @ bs, None,
                          s\<lparr>buffered := drop k (buffered s), lastPart := None\<rparr>)
                else Inr (take k (buffered s) @ bs, Some e,
                          s\<lparr>buffered := drop k (buffered s),
                            lastPart := Some (p\<lparr>Content := Some c'\<rparr>)\<rparr>)
            | (bs, None, c') \<Rightarrow>
                Inr (take k (buffered s) @ bs, None,
                     s\<lparr>buffered := drop k (buffered s),
                       lastPart := Some (p\<lparr>Content := Some c'\<rparr>)\<rparr>))"
  using assms by (simp add: readLastPart_def drainBuffered_eq split: prod.splits option.splits)

lemma readAll_part:
  assumes "0 < k"
  shows "\<not> closed s \<Longrightarrow> \<not> finalizing s \<Longrightarrow> pull s \<noteq> None \<Longrightarrow> lastPart s = Some p
           \<Longrightarrow> Content p = Some c \<Longrightarrow> fin c = EOF
           \<Longrightarrow> \<exists>buf. readAll k s acc
                  = readAll k (s\<lparr>buffered := buf, lastPart := None\<rparr>)
                      (acc @ (if rest c = [] \<and> \<not> quietAtEnd c then take k (buffered s)
                              else buffered s @ rest c))"
proof (induction "length (buffered s) + length (rest c)" arbitrary: s p c acc rule: less_induct)
  case less
  have rd: "Read k s = readLastPart k s"
    using less.prems by (simp add: Read_holding)
  note rl = readLastPart_streaming[OF less.prems(2) less.prems(4) less.prems(5), of k]
  define m where "m = k - length (take k (buffered s))"
  consider (ended) "rest c = []" "\<not> (m = 0 \<and> quietAtEnd c)"
    | (quiet) "rest c = []" "m = 0" "quietAtEnd c"
    | (more) "rest c \<noteq> []"
    by blast
  then show ?case
  proof cases
    case ended
    have "Read k s = Inr (take k (buffered s), None,
                          s\<lparr>buffered := drop k (buffered s), lastPart := None\<rparr>)"
      using ended less.prems by (auto simp: rd rl reader_Read_def m_def)
    then have step: "readAll k s acc
                 = readAll k (s\<lparr>buffered := drop k (buffered s), lastPart := None\<rparr>)
                     (acc @ take k (buffered s))"
      by (subst readAll.simps) simp
    have "quietAtEnd c \<Longrightarrow> take k (buffered s) = buffered s"
      using ended(2) by (auto simp: m_def)
    then show ?thesis using ended(1) step by auto
  next
    case quiet
    define s1 where
      "s1 = s\<lparr>buffered := drop k (buffered s), lastPart := Some (p\<lparr>Content := Some c\<rparr>)\<rparr>"
    have full: "k \<le> length (buffered s)"
      using quiet(2) assms by (simp add: m_def)
    have rd1: "Read k s = Inr (take k (buffered s), None, s1)"
      using quiet by (simp add: rd rl reader_Read_def m_def s1_def)
    have step: "readAll k s acc = readAll k s1 (acc @ take k (buffered s))"
      by (subst readAll.simps) (simp add: rd1)
    have shorter: "length (buffered s1) + length (rest c) < length (buffered s) + length (rest c)"
      using full assms by (simp add: s1_def)
    have "\<exists>buf. readAll k s1 (acc @ take k (buffered s))
            = readAll k (s1\<lparr>buffered := buf, lastPart := None\<rparr>)
                ((acc @ take k (buffered s))
                  @ (if rest c = [] \<and> \<not> quietAtEnd c then take k (buffered s1)
                     else buffered s1 @ rest c))"
    proof (rule less.hyps[OF shorter])
      show "\<not> closed s1" "\<not> finalizing s1" "pull s1 \<noteq> None"
        "lastPart s1 = Some (p\<lparr>Content := Some c\<rparr>)"
        using less.prems by (simp_all add: s1_def)
      show "Content (p\<lparr>Content := Some c\<rparr>) = Some c" by simp
      show "fin c = EOF" by (rule less.prems(6))
    qed
    then obtain buf where ih:
      "readAll k s1 (acc @ take k (buffered s))
         = readAll k (s1\<lparr>buffered := buf, lastPart := None\<rparr>)
             ((acc @ take k (buffered s))
               @ (if rest c = [] \<and> \<not> quietAtEnd c then take k (buffered s1)
                  else buffered s1 @ rest c))"
      by blast
    have same: "s1\<lparr>buffered := buf, lastPart := None\<rparr> = s\<lparr>buffered := buf, lastPart := None\<rparr>"
      by (simp add: s1_def)
    show ?thesis
      using step ih quiet by (auto simp: same s1_def)
  next
    case more
    define c' where "c' = advance m c"
    define p' where "p' = p\<lparr>Content := Some c'\<rparr>"
    define s1 where "s1 = s\<lparr>buffered := drop k (buffered s), lastPart := Some p'\<rparr>"
    have rd1: "Read k s = Inr (take k (buffered s) @ take m (rest c), None, s1)"
      using more by (simp add: rd rl reader_Read_def m_def c'_def p'_def s1_def)
    have step: "readAll k s acc = readAll k s1 (acc @ take k (buffered s) @ take m (rest c))"
      by (subst readAll.simps) (simp add: rd1)
    have rest': "rest c' = drop m (rest c)" and fin': "fin c' = EOF"
      using less.prems by (simp_all add: c'_def advance_def)
    have shorter: "length (buffered s1) + length (rest c') < length (buffered s) + length (rest c)"
    proof (cases "buffered s = []")
      case True
      then have "m = k" by (simp add: m_def)
      then show ?thesis using True more assms by (simp add: s1_def rest')
    next
      case False
      then obtain x xs where "buffered s = x # xs" by (cases "buffered s") auto
      then show ?thesis using assms by (simp add: s1_def rest')
    qed
    have "\<exists>buf. readAll k s1 (acc @ take k (buffered s) @ take m (rest c))
            = readAll k (s1\<lparr>buffered := buf, lastPart := None\<rparr>)
                ((acc @ take k (buffered s) @ take m (rest c))
                  @ (if rest c' = [] \<and> \<not> quietAtEnd c' then take k (buffered s1)
                     else buffered s1 @ rest c'))"
    proof (rule less.hyps[OF shorter])
      show "\<not> closed s1" "\<not> finalizing s1" "pull s1 \<noteq> None" "lastPart s1 = Some p'"
        using less.prems by (simp_all add: s1_def)
      show "Content p' = Some c'" by (simp add: p'_def)
      show "fin c' = EOF" by (rule fin')
    qed
    then obtain buf where ih:
      "readAll k s1 (acc @ take k (buffered s) @ take m (rest c))
         = readAll k (s1\<lparr>buffered := buf, lastPart := None\<rparr>)
             ((acc @ take k (buffered s) @ take m (rest c))
               @ (if rest c' = [] \<and> \<not> quietAtEnd c' then take k (buffered s1)
                  else buffered s1 @ rest c'))"
      by blast
    have same: "s1\<lparr>buffered := buf, lastPart := None\<rparr> = s\<lparr>buffered := buf, lastPart := None\<rparr>"
      by (simp add: s1_def)
    have bytes: "take k (buffered s) @ take m (rest c)
                   @ (if rest c' = [] \<and> \<not> quietAtEnd c' then take k (buffered s1)
                      else buffered s1 @ rest c')
                 = buffered s @ rest c"
    proof (cases "k \<le> length (buffered s)")
      case True
      then have "m = 0" by (simp add: m_def)
      then show ?thesis using more by (simp add: rest' s1_def)
    next
      case False
      then have "drop k (buffered s) = []" "take k (buffered s) = buffered s" by simp_all
      then show ?thesis by (simp add: rest' s1_def)
    qed
    show ?thesis
      using step ih bytes more by (auto simp: same)
  qed
qed

lemma buffered_populatePartHeading:
  "buffered (populatePartHeading p s) = partHeading (firstHeadingWritten s) (boundary s) p"
  by (simp add: populatePartHeading_def partHeading_def)

lemma readAll_parts:
  assumes "0 < k"
  shows "\<not> closed s \<Longrightarrow> \<not> finalizing s \<Longrightarrow> lastPart s = None \<Longrightarrow> pull s = Some (map Inr ps)
           \<Longrightarrow> list_all readablePart ps
           \<Longrightarrow> \<exists>s'. readAll k s acc
                  = Some (Inr (acc @ chunkedOutput k (firstHeadingWritten s) (boundary s) ps,
                               EOF, s'))"
proof (induction ps arbitrary: s acc)
  case Nil
  let ?s = "s\<lparr>finalizing := True, buffered := drop k (trailer (boundary s))\<rparr>"
  have ne: "take k (trailer (boundary s)) \<noteq> []"
    using assms by (simp add: trailer_def CRLF_def)
  have "Read k s = Inr (take k (trailer (boundary s)), None, ?s)"
    using Nil.prems
    by (simp add: Read_def populateEnding_def Buffer_Read_def trailer_def CRLF_def)
  then have "readAll k s acc = readAll k ?s (acc @ take k (trailer (boundary s)))"
    by (subst readAll.simps) simp
  also have "\<dots> = Some (Inr ((acc @ take k (trailer (boundary s))) @ buffered ?s, EOF,
                            ?s\<lparr>buffered := []\<rparr>))"
    using Nil.prems by (intro readAll_trailer[OF assms]) simp_all
  finally show ?case by auto
next
  case (Cons p ps)
  define s1 where
    "s1 = populatePartHeading p (s\<lparr>pull := Some (map Inr ps), lastPart := Some p\<rparr>)"
  obtain c where c: "Content p = Some c" "fin c = EOF"
    using Cons.prems(5) by (auto simp: readablePart_def split: option.splits)
  have s1: "\<not> closed s1" "\<not> finalizing s1" "pull s1 = Some (map Inr ps)" "lastPart s1 = Some p"
    "boundary s1 = boundary s" "firstHeadingWritten s1"
    "buffered s1 = partHeading (firstHeadingWritten s) (boundary s) p"
    using Cons.prems by (simp_all add: s1_def populatePartHeading_def partHeading_def)
  have "Read k s = readLastPart k s1"
    using Cons.prems by (simp add: Read_def s1_def)
  also have "\<dots> = Read k s1"
    using s1 by (simp add: Read_holding)
  finally have "readAll k s acc = readAll k s1 acc"
    by (subst readAll.simps, subst (2) readAll.simps) simp
  moreover obtain buf where
    "readAll k s1 acc = readAll k (s1\<lparr>buffered := buf, lastPart := None\<rparr>)
        (acc @ (if rest c = [] \<and> \<not> quietAtEnd c then take k (buffered s1)
                else buffered s1 @ rest c))"
    using readAll_part[OF assms s1(1) s1(2) _ s1(4) c, of acc] s1(3) by auto
  moreover have "\<exists>s'. readAll k (s1\<lparr>buffered := buf, lastPart := None\<rparr>)
        (acc @ (if rest c = [] \<and> \<not> quietAtEnd c then take k (buffered s1)
                else buffered s1 @ rest c))
      = Some (Inr ((acc @ (if rest c = [] \<and> \<not> quietAtEnd c then take k (buffered s1)
                           else buffered s1 @ rest c))
                    @ chunkedOutput k (firstHeadingWritten (s1\<lparr>buffered := buf, lastPart := None\<rparr>))
                        (boundary (s1\<lparr>buffered := buf, lastPart := None\<rparr>)) ps, EOF, s'))"
    using Cons.prems s1 by (intro Cons.IH) simp_all
  ultimately show ?case
    using s1 c by (auto simp: contentBytes_def quietEnd_def)
qed

lemma headerLines_map_of:
  "headerLines h =
     concat (map (\<lambda>k. concat (map (\<lambda>v. CRLF @ k @ '': '' @ v)
                                  (case map_of h k of None \<Rightarrow> [] | Some vs \<Rightarrow> vs)))
               (sorted_list_of_set (dom (map_of h))))"
  by (simp add: headerLines_def sortedKeys_def MIMEHeader_index_def dom_map_of_conv_image_fst
      sorted_list_of_set_sort_remdups flip: set_map)

lemma headerLines_cong: "map_of h = map_of h' \<Longrightarrow> headerLines h = headerLines h'"
  by (simp add: headerLines_map_of)

lemma readAll_fresh:
  assumes "0 < k" "\<not> closed s" "\<not> finalizing s" "lastPart s = None" "pull s = None"
    "parts s = map Inr ps" "list_all readablePart ps"
  shows "\<exists>s'. readAll k s acc
           = Some (Inr (acc @ chunkedOutput k (firstHeadingWritten s) (boundary s) ps, EOF, s'))"
proof -
  let ?s = "s\<lparr>pull := Some (parts s)\<rparr>"
  have "Read k s = Read k ?s"
    using assms by (simp add: Read_pull_init)
  then have "readAll k s acc = readAll k ?s acc"
    by (subst readAll.simps, subst (2) readAll.simps) simp
  moreover have "\<exists>s'. readAll k ?s acc
      = Some (Inr (acc @ chunkedOutput k (firstHeadingWritten ?s) (boundary ?s) ps, EOF, s'))"
    using assms by (intro readAll_parts) simp_all
  ultimately show ?thesis by simp
qed

lemma chunkedOutput_wireFormat:
  "list_all (\<lambda>p. contentBytes p \<noteq> []) ps \<Longrightarrow> chunkedOutput k later b ps = wireFormat later b ps"
  by (induction ps arbitrary: later) simp_all

lemma chunkedOutput_ends: "\<exists>pre. chunkedOutput k later b ps = pre @ trailer b"
proof (induction ps arbitrary: later)
  case Nil
  show ?case by simp
next
  case (Cons p ps)
  from Cons.IH[of True] obtain pre where "chunkedOutput k True b ps = pre @ trailer b" by blast
  then show ?case by (metis append.assoc chunkedOutput.simps(2))
qed

lemma chunkedOutput_begins:
  "0 < k \<Longrightarrow> ps \<noteq> [] \<Longrightarrow> \<exists>post. chunkedOutput k False b ps = CHR ''-'' # post"
  by (cases ps; cases k) (auto simp: partHeading_def)

lemma writer_accepted_same: "accepted w = a \<Longrightarrow> w\<lparr>accepted := a\<rparr> = w"
  by (cases w) simp

lemma copyAll_ok:
  "room w = None \<Longrightarrow> fin c = EOF
     \<Longrightarrow> \<exists>c'. copyAll c w = (length (rest c), None, c', w\<lparr>accepted := accepted w @ rest c\<rparr>)"
  by (simp add: copyAll_def writer_Write_def writer_accepted_same)

lemma writePartContent_ok:
  assumes "room w = None" "Content p = Some c" "fin c = EOF" "isWriterTo c \<or> isReaderFrom w"
  shows "writePartContent p w s
           = Inr (length (rest c), None, w\<lparr>accepted := accepted w @ rest c\<rparr>, s)"
proof -
  obtain c' where "copyAll c w = (length (rest c), None, c', w\<lparr>accepted := accepted w @ rest c\<rparr>)"
    using copyAll_ok[OF assms(1) assms(3)] by blast
  then show ?thesis
    using assms by (auto simp: writePartContent_def reader_WriteTo_def writer_ReadFrom_def)
qed

lemma Buffer_WriteTo_ok:
  "room w = None \<Longrightarrow> Buffer_WriteTo buf w = (length buf, None, [], w\<lparr>accepted := accepted w @ buf\<rparr>)"
  by (simp add: Buffer_WriteTo_def writer_Write_def writer_accepted_same)

lemma writeParts_ok:
  "room w = None \<Longrightarrow> list_all readablePart ps
     \<Longrightarrow> isReaderFrom w \<or> list_all hasWriterTo ps
     \<Longrightarrow> \<exists>s'. writeParts (map Inr ps) w s n
            = Inr (n + length (wireFormat (firstHeadingWritten s) (boundary s) ps), None,
                   w\<lparr>accepted := accepted w @ wireFormat (firstHeadingWritten s) (boundary s) ps\<rparr>,
                   s')"
proof (induction ps arbitrary: w s n)
  case Nil
  then show ?case
    by (simp add: populateEnding_def Buffer_WriteTo_ok trailer_def)
next
  case (Cons p ps)
  obtain c where c: "Content p = Some c" "fin c = EOF"
    using Cons.prems(2) by (auto simp: readablePart_def split: option.splits)
  have cap: "isWriterTo c \<or> isReaderFrom w"
    using Cons.prems(3) c by (auto simp: hasWriterTo_def)
  let ?h = "partHeading (firstHeadingWritten s) (boundary s) p"
  let ?w1 = "w\<lparr>accepted := accepted w @ ?h\<rparr>"
  let ?w2 = "?w1\<lparr>accepted := accepted ?w1 @ rest c\<rparr>"
  let ?s1 = "(populatePartHeading p s)\<lparr>buffered := []\<rparr>"
  have wc: "writePartContent p ?w1 ?s1 = Inr (length (rest c), None, ?w2, ?s1)"
    using Cons.prems(1) c cap by (intro writePartContent_ok) simp_all
  have step: "writeParts (map Inr (p # ps)) w s n
                = writeParts (map Inr ps) ?w2 ?s1 (n + length ?h + length (rest c))"
    using Cons.prems(1)
    by (simp add: Buffer_WriteTo_ok buffered_populatePartHeading wc Let_def)
  have "\<exists>s'. writeParts (map Inr ps) ?w2 ?s1 (n + length ?h + length (rest c))
     = Inr (n + length ?h + length (rest c)
              + length (wireFormat (firstHeadingWritten ?s1) (boundary ?s1) ps), None,
            ?w2\<lparr>accepted := accepted ?w2 @ wireFormat (firstHeadingWritten ?s1) (boundary ?s1) ps\<rparr>,
            s')"
    using Cons.prems by (intro Cons.IH) auto
  then obtain s' where ih:
    "writeParts (map Inr ps) ?w2 ?s1 (n + length ?h + length (rest c))
     = Inr (n + length ?h + length (rest c)
              + length (wireFormat (firstHeadingWritten ?s1) (boundary ?s1) ps), None,
            ?w2\<lparr>accepted := accepted ?w2 @ wireFormat (firstHeadingWritten ?s1) (boundary ?s1) ps\<rparr>,
            s')"
    by blast
  have fh: "firstHeadingWritten ?s1" "boundary ?s1 = boundary s"
    by (simp_all add: populatePartHeading_def)
  show ?case
    by (subst step, subst ih) (simp add: fh contentBytes_def c)
qed

lemma WriteTo_ok:
  assumes "\<not> closed s" "parts s = map Inr ps" "room w = None" "list_all readablePart ps"
    "isReaderFrom w \<or> list_all hasWriterTo ps"
  shows "\<exists>s'. WriteTo w s
           = Inr (length (wireFormat (firstHeadingWritten s) (boundary s) ps), None,
                  w\<lparr>accepted := accepted w @ wireFormat (firstHeadingWritten s) (boundary s) ps\<rparr>,
                  s')"
  using assms writeParts_ok[of w ps s 0] by (simp add: WriteTo_def)

lemma Read_WriteTo_agree:
  assumes "0 < k" "\<not> closed s" "\<not> finalizing s" "lastPart s = None" "pull s = None"
    "parts s = map Inr ps" "list_all readablePart ps"
    "list_all (\<lambda>p. contentBytes p \<noteq> []) ps"
    "room w = None" "isReaderFrom w \<or> list_all hasWriterTo ps"
  shows "\<exists>out s1 s2. readAll k s [] = Some (Inr (out, EOF, s1))
           \<and> WriteTo w s = Inr (length out, None, w\<lparr>accepted := accepted w @ out\<rparr>, s2)"
  using readAll_fresh[OF assms(1-7), of "[]"] WriteTo_ok[OF assms(2) assms(6) assms(9) assms(7) assms(10)]
    chunkedOutput_wireFormat[OF assms(8)]
  by auto

lemma delivered_Some: "r = Some (Inr (out, e, s)) \<Longrightarrow> delivered r = Some (Inr (out, e))"
  by (simp add: delivered_def)

lemma SetBoundary_NewSource:
  "fst (SetBoundary b (NewSource ps rnd)) = None
     \<Longrightarrow> snd (SetBoundary b (NewSource ps rnd))
          = \<lparr>boundary = b, parts = ps, pull = None, buffered = [], firstHeadingWritten = False,
             lastPart = None, finalizing = False, closed = False\<rparr>"
  by (auto simp: SetBoundary_def NewSource_def populateRandomBoundary_def split: if_splits)

lemma sortedHeader_wire:
  "wireFormat False ''MIMEBOUNDARY'' [headerPart sortedHeaderEntries] = sortedHeaderWant"
  by (simp add: headerPart_def sortedHeaderEntries_def sortedHeaderWant_def partHeading_def
      headerLines_def sortedKeys_def MIMEHeader_index_def headerOf_def SetContentString_def
      SetContent_def strings_NewReader_def bytes_NewReader_def contentBytes_def trailer_def)

lemma headerPart_wire:
  "map_of h = map_of h' \<Longrightarrow> wireFormat later b [headerPart h] = wireFormat later b [headerPart h']"
  by (simp add: partHeading_def headerOf_def headerPart_def SetContentString_def SetContent_def
      contentBytes_def headerLines_cong[of h h'])

lemma shuffled_same_map: "map_of shuffledHeaderEntries = map_of sortedHeaderEntries"
  by (rule ext) (simp add: shuffledHeaderEntries_def sortedHeaderEntries_def)

text \<open>
  C1: the source of \<^verbatim>\<open>TestSortedHeader\<close>, with the explicit boundary
  \<^verbatim>\<open>MIMEBOUNDARY\<close> (which \<^verbatim>\<open>SetBoundary\<close> accepts), read to exhaustion with a buffer
  of any positive size, delivers exactly the expected bytes and then \<^verbatim>\<open>io.EOF\<close>:
  the keys in ascending order, in whatever order the header map holds its five entries,
  and the values of a key in the order of their insertion.
\<close>

theorem sorted_header_output:
  "0 < k \<Longrightarrow> map_of h = map_of sortedHeaderEntries \<Longrightarrow>
     fst (SetBoundary ''MIMEBOUNDARY'' (NewSource (PartSeq [headerPart h]) rnd)) = None
     \<and> delivered (readAll k (sortedHeaderSource h rnd) []) = Some (Inr (sortedHeaderWant, EOF))"
proof -
  assume k: "0 < k" and h: "map_of h = map_of sortedHeaderEntries"
  have ok: "fst (SetBoundary ''MIMEBOUNDARY'' (NewSource (PartSeq [headerPart h]) rnd)) = None"
    by (simp add: SetBoundary_def lastPart_NewSource)
  let ?s = "sortedHeaderSource h rnd"
  have s: "?s = \<lparr>boundary = ''MIMEBOUNDARY'', parts = map Inr [headerPart h], pull = None,
                  buffered = [], firstHeadingWritten = False, lastPart = None,
                  finalizing = False, closed = False\<rparr>"
    unfolding sortedHeaderSource_def by (subst SetBoundary_NewSource[OF ok]) (simp add: PartSeq_def)
  have rd: "list_all readablePart [headerPart h]"
    and ne: "list_all (\<lambda>p. contentBytes p \<noteq> []) [headerPart h]"
    by (simp_all add: readablePart_def contentBytes_def headerPart_def SetContentString_def
        SetContent_def strings_NewReader_def bytes_NewReader_def)
  have wire: "wireFormat False ''MIMEBOUNDARY'' [headerPart h] = sortedHeaderWant"
    using headerPart_wire[OF h, of False "''MIMEBOUNDARY''"] sortedHeader_wire
    by (simp del: wireFormat.simps)
  obtain s' where
    "readAll k ?s [] = Some (Inr ([] @ chunkedOutput k (firstHeadingWritten ?s) (boundary ?s)
                                         [headerPart h], EOF, s'))"
    using readAll_fresh[OF k _ _ _ _ _ rd, of ?s "[]"] by (auto simp: s)
  then have "delivered (readAll k ?s []) = Some (Inr (sortedHeaderWant, EOF))"
    by (simp add: delivered_def chunkedOutput_wireFormat[OF ne] wire s
        del: wireFormat.simps chunkedOutput.simps)
  with ok show ?thesis by simp
qed

theorem sorted_header_output_witness:
  "map_of shuffledHeaderEntries = map_of sortedHeaderEntries
   \<and> map fst shuffledHeaderEntries = [''Z'', ''B'', ''M'', ''A'', ''C'']
   \<and> delivered (readAll 512 (sortedHeaderSource shuffledHeaderEntries zeroRand) [])
       = Some (Inr (sortedHeaderWant, EOF))
   \<and> delivered (readAll 1 (sortedHeaderSource sortedHeaderEntries zeroRand) [])
       = Some (Inr (sortedHeaderWant, EOF))"
  using sorted_header_output[of 512 shuffledHeaderEntries zeroRand]
    sorted_header_output[of 1 sortedHeaderEntries zeroRand] shuffled_same_map
  by (simp add: shuffledHeaderEntries_def)

lemma emptyFieldSource_eq:
  "emptyFieldSource
     = \<lparr>boundary = ''b'', parts = map Inr [emptyFieldPart], pull = None, buffered = [],
        firstHeadingWritten = False, lastPart = None, finalizing = False, closed = False\<rparr>"
  unfolding emptyFieldSource_def
  by (subst SetBoundary_NewSource) (simp_all add: SetBoundary_def lastPart_NewSource PartSeq_def)

lemma emptyFieldPart_facts:
  "readablePart emptyFieldPart" "hasWriterTo emptyFieldPart" "contentBytes emptyFieldPart = []"
  "headerOf emptyFieldPart = []" "\<not> quietEnd emptyFieldPart"
  by (simp_all add: readablePart_def hasWriterTo_def contentBytes_def emptyFieldPart_def quietEnd_def
      SetContentString_def SetContent_def strings_NewReader_def bytes_NewReader_def NewPart_def
      headerOf_def)

text \<open>
  C2: the bytes of the \<^verbatim>\<open>Read\<close> loop, for every positive buffer size, should be those
  of one \<^verbatim>\<open>WriteTo\<close>. Lemma \<open>Read_WriteTo_agree\<close> shows it when every content is
  non-empty. For a part with empty content and a buffer shorter than the heading it
  fails: the first \<^verbatim>\<open>Read\<close> fills the buffer from the heading, the content's
  \<^verbatim>\<open>Read\<close> into the empty remainder returns \<^verbatim>\<open>io.EOF\<close>, the part is dropped, and the
  next \<^verbatim>\<open>Read\<close> resets the buffer with the rest of the heading in it. With a
  one-byte buffer the loop delivers one byte of the heading and the closing delimiter,
  while \<^verbatim>\<open>WriteTo\<close> writes the whole message.
\<close>

theorem empty_content_chunked_read_differs:
  "delivered (readAll 1 emptyFieldSource []) = Some (Inr (''-'' @ CRLF @ ''--b--'' @ CRLF, EOF))
   \<and> map_sum id (\<lambda>(n, e, w, s). (e, accepted w)) (WriteTo bufferSink emptyFieldSource)
       = Inr (None, ''--b'' @ CRLF @ CRLF @ CRLF @ ''--b--'' @ CRLF)"
proof -
  obtain s' where
    "readAll 1 emptyFieldSource []
       = Some (Inr ([] @ chunkedOutput 1 (firstHeadingWritten emptyFieldSource)
                             (boundary emptyFieldSource) [emptyFieldPart], EOF, s'))"
    using readAll_fresh[of 1 emptyFieldSource "[emptyFieldPart]" "[]"]
    by (auto simp: emptyFieldSource_eq emptyFieldPart_facts)
  then have rd: "delivered (readAll 1 emptyFieldSource [])
                   = Some (Inr (''-'' @ CRLF @ ''--b--'' @ CRLF, EOF))"
    by (simp add: delivered_def emptyFieldSource_eq emptyFieldPart_facts partHeading_def
        trailer_def)
  obtain s2 where
    "WriteTo bufferSink emptyFieldSource
       = Inr (length (wireFormat (firstHeadingWritten emptyFieldSource)
                 (boundary emptyFieldSource) [emptyFieldPart]), None,
              bufferSink\<lparr>accepted := accepted bufferSink
                 @ wireFormat (firstHeadingWritten emptyFieldSource)
                     (boundary emptyFieldSource) [emptyFieldPart]\<rparr>, s2)"
    using WriteTo_ok[of emptyFieldSource "[emptyFieldPart]" bufferSink]
    by (auto simp: emptyFieldSource_eq emptyFieldPart_facts bufferSink_def)
  then have "map_sum id (\<lambda>(n, e, w, s). (e, accepted w)) (WriteTo bufferSink emptyFieldSource)
       = Inr (None, ''--b'' @ CRLF @ CRLF @ CRLF @ ''--b--'' @ CRLF)"
    by (simp add: emptyFieldSource_eq emptyFieldPart_facts partHeading_def trailer_def
        bufferSink_def headerLines_def sortedKeys_def)
  with rd show ?thesis by simp
qed

text \<open>
  A second difference: when neither the content has \<^verbatim>\<open>WriteTo\<close> nor the sink
  \<^verbatim>\<open>ReadFrom\<close>, \<^verbatim>\<open>writePartContent\<close> passes the empty slice of the reset buffer to
  \<^verbatim>\<open>io.CopyBuffer\<close>, which panics.
\<close>

lemma WriteTo_scratch_buffer_panics:
  assumes "\<not> closed s" "parts s = Inr p # items" "\<not> hasWriterTo p" "room w = None"
    "\<not> isReaderFrom w"
  shows "WriteTo w s = Inl EmptyBufferInCopyBuffer"
  using assms
  by (auto simp: WriteTo_def Buffer_WriteTo_ok writePartContent_def hasWriterTo_def
      io_CopyBuffer_def Buffer_Grow_def Buffer_Bytes_def Let_def split: option.splits)

lemma WriteTo_limited_plain_panics:
  "WriteTo plainSink (NewSource (PartSeq [limitedPart]) zeroRand) = Inl EmptyBufferInCopyBuffer"
  by (rule WriteTo_scratch_buffer_panics[where p = limitedPart and items = "[]"])
     (simp_all add: NewSource_def populateRandomBoundary_def PartSeq_def plainSink_def
       hasWriterTo_def limitedPart_def SetContent_def io_LimitReader_def)

section \<open>The end of the stream\<close>

text \<open>
  A \<^verbatim>\<open>Read\<close> of a finalizing source delivers the next bytes of the closing delimiter;
  it returns \<^verbatim>\<open>io.EOF\<close> exactly when it delivers none. With a buffer of positive length
  that is when the delimiter is drained.
\<close>

lemma Read_finalizing:
  assumes "\<not> closed s" "finalizing s"
  shows "\<exists>s'. Read k s = Inr (take k (buffered s),
                             (if k = 0 \<or> buffered s = [] then Some EOF else None), s')
           \<and> buffered s' = drop k (buffered s) \<and> finalizing s'"
  using assms by (auto simp: Read_def readLastPart_finalizing)

lemma Read_finalizing_positive:
  assumes "\<not> closed s" "finalizing s" "0 < k" "Read k s = Inr (bs, e, s')"
  shows "(bs \<noteq> [] \<longrightarrow> e = None) \<and> (e = Some EOF \<longleftrightarrow> buffered s = []) \<and> (e = Some EOF \<longrightarrow> bs = [])"
  using Read_finalizing[OF assms(1,2), of k] assms(3,4) by auto

lemma emptySource_eq:
  "emptySource
     = \<lparr>boundary = ''b'', parts = [], pull = None, buffered = [],
        firstHeadingWritten = False, lastPart = None, finalizing = False, closed = False\<rparr>"
  unfolding emptySource_def
  by (subst SetBoundary_NewSource) (simp_all add: SetBoundary_def lastPart_NewSource PartSeq_def)

lemma trailerPending_eq:
  "trailerPending
     = \<lparr>boundary = ''b'', parts = [], pull = Some [], buffered = ''b--'' @ CRLF,
        firstHeadingWritten = False, lastPart = None, finalizing = True, closed = False\<rparr>"
  by (simp add: trailerPending_def emptySource_eq Read_def populateEnding_def Buffer_Read_def
      CRLF_def)

text \<open>
  C5: \<^verbatim>\<open>io.EOF\<close> should be returned only once the closing delimiter is drained. A
  \<^verbatim>\<open>Read\<close> into a buffer of length zero returns it while five bytes of the delimiter
  are pending, which the next \<^verbatim>\<open>Read\<close> still delivers.
\<close>

theorem zero_length_Read_while_trailer_pending:
  "map_sum id (\<lambda>(bs, e, s). (bs, e)) (Read 4 emptySource) = Inr (CRLF @ ''--'', None)
   \<and> finalizing trailerPending
   \<and> buffered trailerPending = ''b--'' @ CRLF
   \<and> Read 0 trailerPending = Inr ([], Some EOF, trailerPending)
   \<and> map_sum id (\<lambda>(bs, e, s). (bs, e)) (Read 5 trailerPending) = Inr (''b--'' @ CRLF, None)"
  by (simp add: trailerPending_eq)
     (simp add: emptySource_eq Read_def populateEnding_def Buffer_Read_def
       readLastPart_def drainBuffered_def CRLF_def)

section \<open>The boundary between two parts\<close>

lemma twoPartSource_eq:
  "twoPartSource
     = \<lparr>boundary = ''X'',
        parts = [Inr (SetContentString ''a'' NewPart), Inr (SetContentString ''b'' NewPart)],
        pull = None, buffered = [],
        firstHeadingWritten = False, lastPart = None, finalizing = False, closed = False\<rparr>"
  unfolding twoPartSource_def
  by (subst SetBoundary_NewSource) (simp_all add: SetBoundary_def lastPart_NewSource PartSeq_def)

lemma Read_twoPartSource:
  "Read 100 twoPartSource
     = Inr (''--X'' @ CRLF @ CRLF @ ''a'', None,
            \<lparr>boundary = ''X'',
             parts = [Inr (SetContentString ''a'' NewPart), Inr (SetContentString ''b'' NewPart)],
             pull = Some [Inr (SetContentString ''b'' NewPart)], buffered = [],
             firstHeadingWritten = True,
             lastPart = Some ((SetContentString ''a'' NewPart)
                               \<lparr>Content := Some (advance 93 (strings_NewReader ''a''))\<rparr>),
             finalizing = False, closed = False\<rparr>)"
  by (simp add: twoPartSource_eq Read_def populatePartHeading_def readLastPart_def
      drainBuffered_def Buffer_Read_def headerLines_def sortedKeys_def headerOf_def NewPart_def
      SetContentString_def SetContent_def strings_NewReader_def bytes_NewReader_def
      reader_Read_def CRLF_def)

lemma betweenParts_eq:
  "betweenParts
     = \<lparr>boundary = ''X'',
        parts = [Inr (SetContentString ''a'' NewPart), Inr (SetContentString ''b'' NewPart)],
        pull = Some [Inr (SetContentString ''b'' NewPart)], buffered = [],
        firstHeadingWritten = True, lastPart = None, finalizing = False, closed = False\<rparr>"
  by (simp add: betweenParts_def afterFirstRead_def Read_twoPartSource)
     (simp add: Read_def readLastPart_def drainBuffered_def reader_Read_def advance_def
       strings_NewReader_def bytes_NewReader_def SetContentString_def SetContent_def)

text \<open>
  C4: once content has been delivered, \<^verbatim>\<open>SetBoundary\<close> should fail and the boundary
  stay. Between two parts it does not: the first \<^verbatim>\<open>Read\<close> delivers the heading and
  the content \<^verbatim>\<open>a\<close> of the first part, the second finds the content at its end and
  clears \<^verbatim>\<open>lastPart\<close>, and then \<^verbatim>\<open>SetBoundary("Y")\<close> succeeds; the rest of
  the message is delimited by \<^verbatim>\<open>Y\<close>, the beginning by \<^verbatim>\<open>X\<close>.
\<close>

theorem SetBoundary_between_parts:
  "map_sum id (\<lambda>(bs, e, s). (bs, e)) (Read 100 twoPartSource)
     = Inr (''--X'' @ CRLF @ CRLF @ ''a'', None)
   \<and> map_sum id (\<lambda>(bs, e, s). (bs, e)) (Read 100 afterFirstRead) = Inr ([], None)
   \<and> SetBoundary ''Y'' betweenParts = (None, betweenParts\<lparr>boundary := ''Y''\<rparr>)
   \<and> delivered (readAll 100 (snd (SetBoundary ''Y'' betweenParts)) [])
       = Some (Inr (CRLF @ ''--Y'' @ CRLF @ CRLF @ ''b'' @ CRLF @ ''--Y--'' @ CRLF, EOF))"
proof -
  have r1: "map_sum id (\<lambda>(bs, e, s). (bs, e)) (Read 100 twoPartSource)
              = Inr (''--X'' @ CRLF @ CRLF @ ''a'', None)"
    by (simp add: Read_twoPartSource)
  have r2: "map_sum id (\<lambda>(bs, e, s). (bs, e)) (Read 100 afterFirstRead) = Inr ([], None)"
    by (simp add: afterFirstRead_def Read_twoPartSource)
       (simp add: Read_def readLastPart_def drainBuffered_def reader_Read_def advance_def
         strings_NewReader_def bytes_NewReader_def SetContentString_def SetContent_def)
  have sb: "SetBoundary ''Y'' betweenParts = (None, betweenParts\<lparr>boundary := ''Y''\<rparr>)"
    by (simp add: SetBoundary_def betweenParts_eq)
  let ?s = "betweenParts\<lparr>boundary := ''Y''\<rparr>"
  let ?pb = "SetContentString ''b'' NewPart"
  have pb: "readablePart ?pb" "contentBytes ?pb = ''b''" "headerOf ?pb = []"
    by (simp_all add: readablePart_def contentBytes_def SetContentString_def SetContent_def
        strings_NewReader_def bytes_NewReader_def NewPart_def headerOf_def)
  obtain s' where
    "readAll 100 ?s [] = Some (Inr ([] @ chunkedOutput 100 (firstHeadingWritten ?s) (boundary ?s)
                                           [?pb], EOF, s'))"
    using readAll_parts[of 100 ?s "[?pb]" "[]"] by (auto simp: betweenParts_eq pb)
  then have "delivered (readAll 100 ?s [])
       = Some (Inr (CRLF @ ''--Y'' @ CRLF @ CRLF @ ''b'' @ CRLF @ ''--Y--'' @ CRLF, EOF))"
    by (simp add: delivered_def betweenParts_eq pb partHeading_def trailer_def headerLines_def
        sortedKeys_def)
  with r1 r2 sb show ?thesis by simp
qed

section \<open>The shape of the output\<close>

lemma wireFormat_ends: "\<exists>pre. wireFormat later b ps = pre @ trailer b"
proof (induction ps arbitrary: later)
  case Nil
  show ?case by simp
next
  case (Cons p ps)
  from Cons.IH[of True] obtain pre where "wireFormat True b ps = pre @ trailer b" by blast
  then show ?case by (metis append.assoc wireFormat.simps(2))
qed

lemma wireFormat_begins:
  "ps \<noteq> [] \<Longrightarrow> \<exists>post. wireFormat False b ps = CHR ''-'' # post"
  by (cases ps) (auto simp: partHeading_def)

text \<open>
  C6, as claimed: the output never begins with a line break, also for the empty
  sequence. For the empty sequence the output is the closing delimiter alone, which
  begins with a carriage return.
\<close>

theorem empty_sequence_output_counterexample:
  "delivered (readAll 512 emptySource []) = Some (Inr (CRLF @ ''--b--'' @ CRLF, EOF))
   \<and> hd (CRLF @ ''--b--'' @ CRLF) = CHR 0x0D"
proof -
  obtain s' where
    "readAll 512 emptySource []
       = Some (Inr ([] @ chunkedOutput 512 (firstHeadingWritten emptySource)
                             (boundary emptySource) [], EOF, s'))"
    using readAll_fresh[of 512 emptySource "[]" "[]"] by (auto simp: emptySource_eq)
  then show ?thesis
    by (simp add: delivered_def emptySource_eq trailer_def CRLF_def)
qed

text \<open>
  C6, amended: for a new source over parts with readable content, the output of the
  \<^verbatim>\<open>Read\<close> loop (for every positive buffer size) and the output of a \<^verbatim>\<open>WriteTo\<close>
  that can copy the contents end with the closing delimiter; for a non-empty sequence
  they begin with \<^verbatim>\<open>-\<close>, and for the empty sequence they are the closing delimiter.
\<close>

theorem encoded_output_shape:
  assumes "0 < k" "\<not> closed s" "\<not> finalizing s" "lastPart s = None" "pull s = None"
    "\<not> firstHeadingWritten s" "parts s = PartSeq ps" "list_all readablePart ps"
  shows "(\<exists>out s'. readAll k s [] = Some (Inr (out, EOF, s'))
            \<and> (\<exists>pre. out = pre @ CRLF @ ''--'' @ boundary s @ ''--'' @ CRLF)
            \<and> (if ps = [] then out = CRLF @ ''--'' @ boundary s @ ''--'' @ CRLF
                else \<exists>post. out = CHR ''-'' # post))
       \<and> (room w = None \<and> (isReaderFrom w \<or> list_all hasWriterTo ps) \<longrightarrow>
            (\<exists>out s'. WriteTo w s = Inr (length out, None, w\<lparr>accepted := accepted w @ out\<rparr>, s')
               \<and> (\<exists>pre. out = pre @ CRLF @ ''--'' @ boundary s @ ''--'' @ CRLF)
               \<and> (if ps = [] then out = CRLF @ ''--'' @ boundary s @ ''--'' @ CRLF
                   else \<exists>post. out = CHR ''-'' # post)))"
proof (intro conjI impI)
  let ?out = "chunkedOutput k False (boundary s) ps"
  obtain s' where "readAll k s [] = Some (Inr ([] @ ?out, EOF, s'))"
    using readAll_fresh[OF assms(1-5) _ assms(8), of "[]"] assms(6,7) by (auto simp: PartSeq_def)
  moreover have "\<exists>pre. ?out = pre @ CRLF @ ''--'' @ boundary s @ ''--'' @ CRLF"
    using chunkedOutput_ends[of k False "boundary s" ps] by (simp add: trailer_def)
  moreover have "if ps = [] then ?out = CRLF @ ''--'' @ boundary s @ ''--'' @ CRLF
                 else \<exists>post. ?out = CHR ''-'' # post"
    using chunkedOutput_begins[OF assms(1), of ps "boundary s"] by (simp add: trailer_def)
  ultimately show "\<exists>out s'. readAll k s [] = Some (Inr (out, EOF, s'))
            \<and> (\<exists>pre. out = pre @ CRLF @ ''--'' @ boundary s @ ''--'' @ CRLF)
            \<and> (if ps = [] then out = CRLF @ ''--'' @ boundary s @ ''--'' @ CRLF
                else \<exists>post. out = CHR ''-'' # post)"
    by (metis append_Nil)
next
  assume w: "room w = None \<and> (isReaderFrom w \<or> list_all hasWriterTo ps)"
  let ?out = "wireFormat False (boundary s) ps"
  obtain s' where "WriteTo w s = Inr (length ?out, None, w\<lparr>accepted := accepted w @ ?out\<rparr>, s')"
    using WriteTo_ok[OF assms(2) _ _ assms(8), of w] assms(6,7) w by (auto simp: PartSeq_def)
  moreover have "\<exists>pre. ?out = pre @ CRLF @ ''--'' @ boundary s @ ''--'' @ CRLF"
    using wireFormat_ends[of False "boundary s" ps] by (simp add: trailer_def)
  moreover have "if ps = [] then ?out = CRLF @ ''--'' @ boundary s @ ''--'' @ CRLF
                 else \<exists>post. ?out = CHR ''-'' # post"
    using wireFormat_begins[of ps "boundary s"] by (simp add: trailer_def)
  ultimately show "\<exists>out s'. WriteTo w s = Inr (length out, None, w\<lparr>accepted := accepted w @ out\<rparr>, s')
               \<and> (\<exists>pre. out = pre @ CRLF @ ''--'' @ boundary s @ ''--'' @ CRLF)
               \<and> (if ps = [] then out = CRLF @ ''--'' @ boundary s @ ''--'' @ CRLF
                   else \<exists>post. out = CHR ''-'' # post)"
    by blast
qed

lemma NewSource_fresh:
  "\<not> closed (NewSource ps rnd)" "\<not> finalizing (NewSource ps rnd)" "pull (NewSource ps rnd) = None"
  "\<not> firstHeadingWritten (NewSource ps rnd)" "parts (NewSource ps rnd) = ps"
  "boundary (NewSource ps rnd) = hexEncode (take 30 rnd)"
  by (simp_all add: NewSource_def populateRandomBoundary_def)

theorem encoded_output_shape_witness:
  "(\<exists>out s'. readAll 512 (NewSource (PartSeq [sortedHeaderPart]) zeroRand) []
                = Some (Inr (out, EOF, s'))
      \<and> (\<exists>pre. out = pre @ CRLF @ ''--''
                   @ boundary (NewSource (PartSeq [sortedHeaderPart]) zeroRand) @ ''--'' @ CRLF)
      \<and> (\<exists>post. out = CHR ''-'' # post))
   \<and> (\<exists>out s'. WriteTo bufferSink (NewSource (PartSeq [sortedHeaderPart]) zeroRand)
                = Inr (length out, None, bufferSink\<lparr>accepted := accepted bufferSink @ out\<rparr>, s')
      \<and> (\<exists>pre. out = pre @ CRLF @ ''--''
                   @ boundary (NewSource (PartSeq [sortedHeaderPart]) zeroRand) @ ''--'' @ CRLF)
      \<and> (\<exists>post. out = CHR ''-'' # post))"
  using encoded_output_shape[of 512 "NewSource (PartSeq [sortedHeaderPart]) zeroRand"
      "[sortedHeaderPart]" bufferSink]
  by (simp add: NewSource_fresh lastPart_NewSource readablePart_def sortedHeaderPart_def
      headerPart_def SetContentString_def SetContent_def strings_NewReader_def bytes_NewReader_def
      bufferSink_def)

section \<open>Sniffing the content type\<close>

lemma io_ReadAll_eq: "io_ReadAll k r = (rest r, fin r)"
proof (induction "length (rest r)" arbitrary: r rule: less_induct)
  case less
  show ?case
  proof (cases "rest r = []")
    case True
    then show ?thesis by (subst io_ReadAll.simps) (simp add: reader_Read_def)
  next
    case False
    then have "length (rest (advance (Suc k) r)) < length (rest r)"
      by (cases "rest r") (simp_all add: advance_def)
    from less.hyps[OF this] False show ?thesis
      by (subst io_ReadAll.simps) (simp add: reader_Read_def advance_def)
  qed
qed

lemma DetectContentType_ReadFull_rewinds:
  assumes "Content p = Some c" "512 \<le> length (rest c)" "seek c = SeekOk"
  shows "\<exists>p' c'. DetectContentType_ReadFull sniff p = Inr p' \<and> Content p' = Some c'
           \<and> io_ReadAll k c' = (past c @ rest c, fin c)"
  using assms
  by (auto simp: DetectContentType_ReadFull_def io_ReadFull_def io_ReadAll_eq
      SetContentType_def reader_SeekStart_def advance_def Let_def)

text \<open>
  That variant rewinds a seekable stream to its very start: of a \<^verbatim>\<open>strings.Reader\<close>
  that has been read up to some position it delivers the bytes before the position
  again.
\<close>

lemma DetectContentType_ReadFull_consumed:
  "io_ReadAll 511 consumedStream = (replicate 600 (CHR ''x''), EOF)
   \<and> map_sum id (\<lambda>p'. map_option (io_ReadAll 511) (Content p'))
        (DetectContentType_ReadFull htmlSniff (SetContent consumedStream NewPart))
       = Inr (Some (CHR ''y'' # replicate 600 (CHR ''x''), EOF))"
proof -
  have c: "past consumedStream = ''y''" "rest consumedStream = replicate 600 (CHR ''x'')"
    "fin consumedStream = EOF" "seek consumedStream = SeekOk"
    by (simp_all add: consumedStream_def advance_def strings_NewReader_def bytes_NewReader_def)
  obtain p' c' where
    "DetectContentType_ReadFull htmlSniff (SetContent consumedStream NewPart) = Inr p'"
    "Content p' = Some c'"
    "io_ReadAll 511 c' = (past consumedStream @ rest consumedStream, fin consumedStream)"
    using DetectContentType_ReadFull_rewinds[of "SetContent consumedStream NewPart"
        consumedStream htmlSniff 511]
    by (auto simp: c SetContent_def)
  then show ?thesis by (simp add: io_ReadAll_eq c)
qed





end
